theory Spec2Isabelle
  imports Main
begin

section \<open>JavaScript values used by the facilitator\<close>

text \<open>
  Strings are lists of 8-bit characters: every string the upto scheme handles (decimal
  amounts, hexadecimal addresses, CAIP-2 network identifiers) is ASCII, and a character is
  read as the code unit of the same number. A value that may be \<open>undefined\<close> is an option.

  A \<open>bigint\<close> is an \<open>int\<close>. A \<open>number\<close> is kept only as far as the code looks at it:
  whether it is an integer (and which), a finite fraction, or \<open>NaN\<close>/\<open>\<plusminus>Infinity\<close>.
\<close>

datatype number = Integer int | Fraction | NotFinite

text \<open>\<open>BigInt(n)\<close> for a number \<open>n\<close>: the integer itself, and a \<open>RangeError\<close> (\<open>None\<close>)
  for every number that is not an integer.\<close>

fun BigInt_number :: "number \<Rightarrow> int option" where
  "BigInt_number (Integer n) = Some n"
| "BigInt_number Fraction = None"
| "BigInt_number NotFinite = None"

fun isFinite :: "number \<Rightarrow> bool" where
  "isFinite (Integer n) = True"
| "isFinite Fraction = True"
| "isFinite NotFinite = False"

text \<open>Truthiness of \<open>string | undefined\<close>: \<open>!v\<close> holds for \<open>undefined\<close> and for the empty
  string.\<close>

fun falsy :: "string option \<Rightarrow> bool" where
  "falsy None = True"
| "falsy (Some s) = (s = [])"

text \<open>The nullish coalescing operator \<open>a ?? b\<close>.\<close>

fun nullish :: "'a option \<Rightarrow> 'a option \<Rightarrow> 'a option" where
  "nullish None b = b"
| "nullish (Some a) b = Some a"

subsection \<open>\<open>BigInt(string)\<close>\<close>

text \<open>
  \<open>BigInt(s)\<close> on a string follows ECMAScript's \<open>StringToBigInt\<close>: white space is trimmed
  on both sides; the empty rest is \<open>0n\<close>; otherwise the rest is a decimal literal with an
  optional sign, or an unsigned literal with prefix \<open>0x\<close>, \<open>0o\<close> or \<open>0b\<close> (either case).
  Anything else is a \<open>SyntaxError\<close> (\<open>None\<close>).
\<close>

definition isStrWhiteSpaceChar :: "char \<Rightarrow> bool" where
  "isStrWhiteSpaceChar c =
     (c = CHR 0x09 \<or> c = CHR 0x0A \<or> c = CHR 0x0B \<or> c = CHR 0x0C \<or> c = CHR 0x0D
      \<or> c = CHR 0x20 \<or> c = CHR 0xA0)"

definition trimString :: "string \<Rightarrow> string" where
  "trimString s = rev (dropWhile isStrWhiteSpaceChar (rev (dropWhile isStrWhiteSpaceChar s)))"

definition digitValue :: "char \<Rightarrow> nat option" where
  "digitValue c =
     (let n = (of_char c :: nat) in
      if 48 \<le> n \<and> n \<le> 57 then Some (n - 48)
      else if 97 \<le> n \<and> n \<le> 102 then Some (n - 87)
      else if 65 \<le> n \<and> n \<le> 70 then Some (n - 55)
      else None)"

fun digitsValue :: "nat \<Rightarrow> nat \<Rightarrow> string \<Rightarrow> nat option" where
  "digitsValue b acc [] = Some acc"
| "digitsValue b acc (c # cs) =
     (case digitValue c of
        None \<Rightarrow> None
      | Some d \<Rightarrow> if d < b then digitsValue b (acc * b + d) cs else None)"

definition parseDigits :: "nat \<Rightarrow> string \<Rightarrow> nat option" where
  "parseDigits b s = (if s = [] then None else digitsValue b 0 s)"

definition signedInteger :: "string \<Rightarrow> int option" where
  "signedInteger t =
     (case t of
        [] \<Rightarrow> None
      | c # ds \<Rightarrow>
          if c = CHR ''+'' then map_option int (parseDigits 10 ds)
          else if c = CHR ''-'' then map_option (\<lambda>n. - int n) (parseDigits 10 ds)
          else map_option int (parseDigits 10 t))"

definition StringToBigInt :: "string \<Rightarrow> int option" where
  "StringToBigInt s =
     (let t = trimString s in
      case t of
        [] \<Rightarrow> Some 0
      | c # u \<Rightarrow>
          (case u of
             [] \<Rightarrow> signedInteger t
           | x # ds \<Rightarrow>
               if c = CHR ''0'' \<and> (x = CHR ''x'' \<or> x = CHR ''X'') then map_option int (parseDigits 16 ds)
               else if c = CHR ''0'' \<and> (x = CHR ''o'' \<or> x = CHR ''O'') then map_option int (parseDigits 8 ds)
               else if c = CHR ''0'' \<and> (x = CHR ''b'' \<or> x = CHR ''B'') then map_option int (parseDigits 2 ds)
               else signedInteger t))"

subsection \<open>\<open>bigint.toString()\<close>\<close>

definition digitChar :: "nat \<Rightarrow> char" where
  "digitChar d = ''0123456789'' ! d"

fun natToString :: "nat \<Rightarrow> string" where
  "natToString n = (if n < 10 then [digitChar n] else natToString (n div 10) @ [digitChar (n mod 10)])"

declare natToString.simps [simp del]

definition bigintToString :: "int \<Rightarrow> string" where
  "bigintToString i = (if i < 0 then CHR ''-'' # natToString (nat (- i)) else natToString (nat i))"

subsection \<open>\<open>String.prototype.split\<close> on one separator character\<close>

fun splitOn :: "char \<Rightarrow> string \<Rightarrow> string list" where
  "splitOn sep [] = [[]]"
| "splitOn sep (c # cs) =
     (if c = sep then [] # splitOn sep cs
      else (case splitOn sep cs of
              [] \<Rightarrow> [[c]]
            | w # ws \<Rightarrow> (c # w) # ws))"

text \<open>\<open>xs[1]\<close>: the second element, \<open>undefined\<close> when there is none.\<close>

fun second :: "'a list \<Rightarrow> 'a option" where
  "second (x # y # ys) = Some y"
| "second xs = None"

section \<open>Wire types\<close>

record Extra =
  name :: "string option"
  version :: "string option"
  maxAmountRequired :: "string option"
  maxAmount :: "string option"

record PaymentRequirements =
  scheme :: string
  network :: string
  asset :: string
  payTo :: string
  amount :: string
  maxTimeoutSeconds :: int
  extra :: "Extra option"

text \<open>The scheme-specific payload, as \<open>verify\<close> views it:
  \<open>Partial<UptoEvmPayload>\<close> with a \<open>Partial<UptoEvmAuthorization>\<close>. The fields of the
  authorization carry the prefix \<open>auth_\<close>.\<close>

record UptoEvmAuthorization =
  auth_from :: "string option"
  auth_to :: "string option"
  auth_value :: "string option"
  auth_validAfter :: "string option"
  auth_validBefore :: "string option"
  auth_nonce :: "string option"

record UptoEvmPayload =
  authorization :: "UptoEvmAuthorization option"
  signature :: "string option"

record PaymentPayload =
  x402Version :: int
  accepted :: PaymentRequirements
  payload :: UptoEvmPayload

record VerifyResponse =
  isValid :: bool
  invalidReason :: "string option"
  payer :: "string option"

record SettleResponse =
  success :: bool
  errorReason :: "string option"
  transaction :: string
  settleNetwork :: string
  settlePayer :: "string option"

section \<open>The settlement orchestrator (src/upto/settlement.ts)\<close>

subsection \<open>Sessions and the store\<close>

text \<open>
  Modelled from the spec: the \<open>Session\<close> type and the \<open>UptoSessionStore\<close> of
  \<open>sessionStore.ts\<close>, which is not among the sources. The spec (3, 4.4) gives the session
  its fields and the store as a mapping from session id to session with \<open>get(id)\<close> and
  \<open>set(id, session)\<close>, a whole-record update.
\<close>

datatype Status = Open | Settling | Closed

record LastSettlement =
  atMs :: int
  reason :: string
  receipt :: SettleResponse

record Session =
  paymentPayload :: PaymentPayload
  paymentRequirements :: PaymentRequirements
  cap :: int
  deadline :: int
  settledTotal :: int
  pendingSpent :: int
  status :: Status
  lastSettlement :: "LastSettlement option"

type_synonym UptoSessionStore = "string \<rightharpoonup> Session"

definition store_get :: "UptoSessionStore \<Rightarrow> string \<Rightarrow> Session option" where
  "store_get st sid = st sid"

definition store_set :: "UptoSessionStore \<Rightarrow> string \<Rightarrow> Session \<Rightarrow> UptoSessionStore" where
  "store_set st sid s = st(sid \<mapsto> s)"

subsection \<open>The facilitator client\<close>

text \<open>
  \<open>facilitatorClient.settle\<close> is an external call: it returns a \<open>SettleResponse\<close> or
  throws. What it throws is an \<open>Error\<close> with a message, or some other value.
\<close>

datatype thrown = Error string | NonError

type_synonym UptoFacilitatorClient =
  "PaymentPayload \<Rightarrow> PaymentRequirements \<Rightarrow> thrown + SettleResponse"

subsection \<open>\<open>settleUptoSession\<close>\<close>

text \<open>
  The result of a run: whether the function returned or threw, the store it leaves, every
  \<open>store.set\<close> it made and every call of the client, both in order. The only exception
  of the function's own is the \<open>RangeError\<close> of \<open>BigInt(deadlineBufferSec)\<close>.
  \<open>Date.now()\<close> is read twice; the two readings are the arguments \<open>atMsNow\<close> and
  \<open>nowMs\<close>, integers of milliseconds. The store holds values: what \<open>get\<close> returned
  changes in the store only by a \<open>set\<close>. The client is a function of its two arguments
  and does not touch the store.
\<close>

datatype outcome = Returns | Throws_RangeError

record run =
  outcome :: outcome
  finalStore :: UptoSessionStore
  storeSets :: "(string \<times> Session) list"
  clientCalls :: "(PaymentPayload \<times> PaymentRequirements) list"

definition catchReceipt :: "Session \<Rightarrow> thrown + SettleResponse \<Rightarrow> SettleResponse" where
  "catchReceipt session res =
     (case res of
        Inr rc \<Rightarrow> rc
      | Inl err \<Rightarrow>
          \<lparr> success = False,
            errorReason = Some (case err of Error msg \<Rightarrow> msg | NonError \<Rightarrow> ''settlement_failed''),
            transaction = [],
            settleNetwork = network (accepted (paymentPayload session)),
            settlePayer = None \<rparr>)"

definition settleUptoSession ::
  "UptoSessionStore \<Rightarrow> UptoFacilitatorClient \<Rightarrow> string \<Rightarrow> string \<Rightarrow> bool \<Rightarrow> number
     \<Rightarrow> int \<Rightarrow> int \<Rightarrow> run" where
  "settleUptoSession st facilitatorClient sessionId why closeAfter deadlineBufferSec atMsNow nowMs =
     (case store_get st sessionId of
        None \<Rightarrow> \<lparr> outcome = Returns, finalStore = st, storeSets = [], clientCalls = [] \<rparr>
      | Some session \<Rightarrow>
          if status session \<noteq> Open
          then \<lparr> outcome = Returns, finalStore = st, storeSets = [], clientCalls = [] \<rparr>
          else if pendingSpent session \<le> 0
          then (if closeAfter
                then (let closed = session \<lparr> status := Closed \<rparr> in
                      \<lparr> outcome = Returns, finalStore = store_set st sessionId closed,
                        storeSets = [(sessionId, closed)], clientCalls = [] \<rparr>)
                else \<lparr> outcome = Returns, finalStore = st, storeSets = [], clientCalls = [] \<rparr>)
          else
            (let settling = session \<lparr> status := Settling \<rparr>;
                 st1 = store_set st sessionId settling;
                 settleAmount = pendingSpent settling;
                 settleRequirements =
                   (paymentRequirements settling) \<lparr> amount := bigintToString settleAmount \<rparr>;
                 rc = catchReceipt settling
                        (facilitatorClient (paymentPayload settling) settleRequirements);
                 settled =
                   (if success rc
                    then settling \<lparr> settledTotal := settledTotal settling + settleAmount,
                                    pendingSpent := 0 \<rparr>
                    else settling);
                 recorded = settled \<lparr> lastSettlement :=
                              Some \<lparr> atMs = atMsNow, reason = why, receipt = rc \<rparr> \<rparr>;
                 nowSec = nowMs div 1000;
                 calls = [(paymentPayload settling, settleRequirements)];
                 finish = (\<lambda>s. \<lparr> outcome = Returns, finalStore = store_set st1 sessionId s,
                                  storeSets = [(sessionId, settling), (sessionId, s)],
                                  clientCalls = calls \<rparr>)
             in if closeAfter \<or> cap recorded \<le> settledTotal recorded
                then finish (recorded \<lparr> status := Closed \<rparr>)
                else (case BigInt_number deadlineBufferSec of
                        None \<Rightarrow> \<lparr> outcome = Throws_RangeError, finalStore = st1,
                                  storeSets = [(sessionId, settling)], clientCalls = calls \<rparr>
                      | Some buffer \<Rightarrow>
                          if deadline recorded \<le> nowSec + buffer
                          then finish (recorded \<lparr> status := Closed \<rparr>)
                          else finish (recorded \<lparr> status := Open \<rparr>))))"

text \<open>The session invariant of the spec: \<open>settledTotal + pendingSpent \<le> cap\<close>.\<close>

definition capInvariant :: "Session \<Rightarrow> bool" where
  "capInvariant s = (settledTotal s + pendingSpent s \<le> cap s)"

text \<open>A call that leaves out the last two arguments takes their defaults,
  \<open>closeAfter = false\<close> and \<open>deadlineBufferSec = 60\<close>.\<close>

definition settleUptoSession_default ::
  "UptoSessionStore \<Rightarrow> UptoFacilitatorClient \<Rightarrow> string \<Rightarrow> string \<Rightarrow> int \<Rightarrow> int \<Rightarrow> run" where
  "settleUptoSession_default st facilitatorClient sessionId why atMsNow nowMs =
     settleUptoSession st facilitatorClient sessionId why False (Integer 60) atMsNow nowMs"

section \<open>The upto EVM scheme (UptoEvmScheme)\<close>

subsection \<open>What the scheme calls\<close>

text \<open>
  The scheme calls two functions of the viem library and one builtin whose results are
  parameters here:
  \<^item> \<open>getAddress\<close>: the checksummed form of an address; it throws \<open>InvalidAddressError\<close>
    (\<open>None\<close>) on a string that is not an address;
  \<^item> \<open>parseSignature\<close>: the parts of a hex signature; it throws (\<open>None\<close>) on malformed
    input;
  \<^item> \<open>Number(s)\<close> for a string \<open>s\<close>.
\<close>

record ParsedSignature =
  sig_r :: string
  sig_s :: string
  sig_v :: "int option"
  sig_yParity :: "int option"

record Runtime =
  getAddress :: "string \<Rightarrow> string option"
  parseSignature :: "string \<Rightarrow> ParsedSignature option"
  Number_string :: "string \<Rightarrow> number"

text \<open>
  The signer (\<open>FacilitatorEvmSigner\<close>) is the chain: an external, stateful service. Each
  of its operations is a function of the calls made to it so far and of the arguments, and
  answers \<open>None\<close> when it throws. A run of the scheme returns, next to its result, the log
  of signer calls extended by the calls it made.
\<close>

record TypedDataDomain =
  domain_name :: string
  domain_version :: string
  domain_chainId :: number
  domain_verifyingContract :: string

record PermitMessage =
  msg_owner :: string
  msg_spender :: string
  msg_value :: int
  msg_nonce :: int
  msg_deadline :: int

record TypedDataRequest =
  td_address :: string
  td_domain :: TypedDataDomain
  td_primaryType :: string
  td_message :: PermitMessage
  td_signature :: string

datatype ContractCall =
    permit string string int int "int option" string string
  | allowance string string
  | transferFrom string string int

datatype SignerCall =
    VerifyTypedData TypedDataRequest
  | WriteContract string ContractCall
  | WaitForTransactionReceipt string
  | ReadContract string ContractCall

record Signer =
  verifyTypedData :: "SignerCall list \<Rightarrow> TypedDataRequest \<Rightarrow> bool option"
  writeContract :: "SignerCall list \<Rightarrow> string \<Rightarrow> ContractCall \<Rightarrow> string option"
  waitForTransactionReceipt :: "SignerCall list \<Rightarrow> string \<Rightarrow> string option"
  readContract :: "SignerCall list \<Rightarrow> string \<Rightarrow> ContractCall \<Rightarrow> int option"

text \<open>What \<open>verify\<close> and \<open>settle\<close> can throw: \<open>getAddress\<close>'s error, and the \<open>TypeError\<close>
  of reading a field of \<open>undefined\<close>.\<close>

datatype SchemeError = InvalidAddressError | TypeError

subsection \<open>\<open>toBigInt\<close>\<close>

definition toBigInt :: "string option \<Rightarrow> int" where
  "toBigInt v =
     (if falsy v then 0
      else (case v of
              None \<Rightarrow> 0
            | Some s \<Rightarrow> (case StringToBigInt s of None \<Rightarrow> 0 | Some n \<Rightarrow> n)))"

subsection \<open>\<open>verify\<close>\<close>

definition invalid :: "string \<Rightarrow> string option \<Rightarrow> VerifyResponse" where
  "invalid tag p = \<lparr> isValid = False, invalidReason = Some tag, payer = p \<rparr>"

text \<open>\<open>extra?.f\<close> for a field \<open>f\<close> of the optional \<open>extra\<close>.\<close>

definition extraField :: "(Extra \<Rightarrow> string option) \<Rightarrow> Extra option \<Rightarrow> string option" where
  "extraField f ex = (case ex of None \<Rightarrow> None | Some e \<Rightarrow> f e)"

text \<open>\<open>Number(requirements.network.split(":")[1])\<close>; \<open>Number(undefined)\<close> is \<open>NaN\<close>.\<close>

definition chainIdOf :: "Runtime \<Rightarrow> string \<Rightarrow> number" where
  "chainIdOf rt net =
     (case second (splitOn CHR '':'' net) of
        None \<Rightarrow> NotFinite
      | Some s \<Rightarrow> Number_string rt s)"

text \<open>\<open>authorization?.from\<close>, the \<open>payer\<close> of every response of \<open>verify\<close>.\<close>

definition payerOf :: "PaymentPayload \<Rightarrow> string option" where
  "payerOf pl = (case authorization (payload pl) of None \<Rightarrow> None | Some a \<Rightarrow> auth_from a)"

text \<open>
  \<open>verify\<close>, check by check in the order of the source, cut into four parts that call
  one another: the presence checks (source lines 94 to 129), the addresses, network and
  domain (lines 131 to 160), the integers and the chain id (lines 162 to 201), and the
  signature (lines 203 to 257). \<open>nowMs\<close> is the reading of \<open>Date.now()\<close>, \<open>h\<close> the log of
  signer calls so far, \<open>payerField\<close> the \<open>payer\<close> of every response.
\<close>

definition verifySignature ::
  "Runtime \<Rightarrow> Signer \<Rightarrow> SignerCall list \<Rightarrow> PaymentRequirements \<Rightarrow> string option
     \<Rightarrow> string \<Rightarrow> string \<Rightarrow> string \<Rightarrow> string \<Rightarrow> string \<Rightarrow> number \<Rightarrow> int \<Rightarrow> int \<Rightarrow> int
     \<Rightarrow> (SchemeError + VerifyResponse) \<times> SignerCall list" where
  "verifySignature rt signer h requirements payerField sg ownerAddress spenderAddress nm ver
       chainId capValue nonceValue deadlineValue =
     (case getAddress rt (asset requirements) of
        None \<Rightarrow> (Inl InvalidAddressError, h)
      | Some verifyingContract \<Rightarrow>
          (let request =
                 \<lparr> td_address = ownerAddress,
                   td_domain = \<lparr> domain_name = nm, domain_version = ver,
                                 domain_chainId = chainId,
                                 domain_verifyingContract = verifyingContract \<rparr>,
                   td_primaryType = ''Permit'',
                   td_message = \<lparr> msg_owner = ownerAddress, msg_spender = spenderAddress,
                                  msg_value = capValue, msg_nonce = nonceValue,
                                  msg_deadline = deadlineValue \<rparr>,
                   td_signature = sg \<rparr>;
               h' = h @ [VerifyTypedData request]
           in case verifyTypedData signer h request of
                None \<Rightarrow> (Inr (invalid ''invalid_permit_signature'' payerField), h')
              | Some ok \<Rightarrow>
                  if \<not> ok then (Inr (invalid ''invalid_permit_signature'' payerField), h')
                  else (Inr \<lparr> isValid = True, invalidReason = None, payer = payerField \<rparr>, h')))"

definition verifyAmounts ::
  "Runtime \<Rightarrow> Signer \<Rightarrow> int \<Rightarrow> SignerCall list \<Rightarrow> PaymentRequirements \<Rightarrow> string option
     \<Rightarrow> UptoEvmAuthorization \<Rightarrow> string \<Rightarrow> string \<Rightarrow> string \<Rightarrow> string \<Rightarrow> string
     \<Rightarrow> (SchemeError + VerifyResponse) \<times> SignerCall list" where
  "verifyAmounts rt signer nowMs h requirements payerField auth sg ownerAddress spenderAddress
       nm ver =
     (let ex = extra requirements;
          capValue = toBigInt (auth_value auth);
          requiredAmount = toBigInt (Some (amount requirements))
      in
      if capValue < requiredAmount
      then (Inr (invalid ''cap_too_low'' payerField), h)
      else
      let maxRequired =
            toBigInt (nullish (extraField maxAmountRequired ex) (extraField maxAmount ex))
      in
      if 0 < maxRequired \<and> capValue < maxRequired
      then (Inr (invalid ''cap_below_required_max'' payerField), h)
      else
      let now = nowMs div 1000;
          deadlineValue = toBigInt (auth_validBefore auth)
      in
      if deadlineValue < now + 6
      then (Inr (invalid ''authorization_expired'' payerField), h)
      else
      let chainId = chainIdOf rt (network requirements) in
      if \<not> isFinite chainId
      then (Inr (invalid ''invalid_chain_id'' payerField), h)
      else verifySignature rt signer h requirements payerField sg ownerAddress spenderAddress
             nm ver chainId capValue (toBigInt (auth_nonce auth)) deadlineValue)"

definition verifyAddresses ::
  "Runtime \<Rightarrow> Signer \<Rightarrow> int \<Rightarrow> SignerCall list \<Rightarrow> PaymentPayload \<Rightarrow> PaymentRequirements
     \<Rightarrow> string option \<Rightarrow> UptoEvmAuthorization \<Rightarrow> string \<Rightarrow> string \<Rightarrow> string
     \<Rightarrow> (SchemeError + VerifyResponse) \<times> SignerCall list" where
  "verifyAddresses rt signer nowMs h pl requirements payerField auth sg ownerStr spenderStr =
     (case getAddress rt ownerStr of
        None \<Rightarrow> (Inl InvalidAddressError, h)
      | Some ownerAddress \<Rightarrow>
      (case getAddress rt spenderStr of
        None \<Rightarrow> (Inl InvalidAddressError, h)
      | Some spenderAddress \<Rightarrow>
      if network (accepted pl) \<noteq> network requirements
      then (Inr (invalid ''network_mismatch'' payerField), h)
      else
      let nameField = extraField name (extra requirements);
          versionField = extraField version (extra requirements)
      in
      if falsy nameField \<or> falsy versionField
      then (Inr (invalid ''missing_eip712_domain'' payerField), h)
      else
      (case getAddress rt (payTo requirements) of
        None \<Rightarrow> (Inl InvalidAddressError, h)
      | Some payToAddress \<Rightarrow>
      if spenderAddress \<noteq> payToAddress
      then (Inr (invalid ''recipient_mismatch'' payerField), h)
      else verifyAmounts rt signer nowMs h requirements payerField auth sg
             ownerAddress spenderAddress
             (case nameField of None \<Rightarrow> [] | Some nm \<Rightarrow> nm)
             (case versionField of None \<Rightarrow> [] | Some ver \<Rightarrow> ver))))"

text \<open>A test \<open>!x\<close> has answered for an absent string before the string is used: the
  \<open>None\<close> branches of the case distinctions on \<open>owner\<close>, \<open>spender\<close>, the signature, the
  name and the version (here and in \<open>verifyAddresses\<close>) cannot be taken.\<close>

definition verify ::
  "Runtime \<Rightarrow> Signer \<Rightarrow> int \<Rightarrow> SignerCall list \<Rightarrow> PaymentPayload \<Rightarrow> PaymentRequirements
     \<Rightarrow> (SchemeError + VerifyResponse) \<times> SignerCall list" where
  "verify rt signer nowMs h pl requirements =
     (let uptoPayload = payload pl;
          payerField = payerOf pl
      in
      if scheme (accepted pl) \<noteq> ''upto'' \<or> scheme requirements \<noteq> ''upto''
      then (Inr (invalid ''unsupported_scheme'' payerField), h)
      else
      (case authorization uptoPayload of
        None \<Rightarrow> (Inr (invalid ''invalid_upto_evm_payload'' payerField), h)
      | Some auth \<Rightarrow>
      if falsy (signature uptoPayload)
      then (Inr (invalid ''invalid_upto_evm_payload'' payerField), h)
      else
      let owner = auth_from auth;
          spender = nullish (auth_to auth) (Some (payTo requirements));
          nonce = auth_nonce auth;
          validBefore = auth_validBefore auth;
          val = auth_value auth
      in
      if falsy owner \<or> falsy spender \<or> falsy nonce \<or> falsy validBefore \<or> falsy val
      then (Inr (invalid ''invalid_upto_evm_payload'' payerField), h)
      else
      (case owner of
        None \<Rightarrow> (Inr (invalid ''invalid_upto_evm_payload'' payerField), h)
      | Some ownerStr \<Rightarrow>
      (case spender of
        None \<Rightarrow> (Inr (invalid ''invalid_upto_evm_payload'' payerField), h)
      | Some spenderStr \<Rightarrow>
          verifyAddresses rt signer nowMs h pl requirements payerField auth
            (case signature uptoPayload of None \<Rightarrow> [] | Some sg \<Rightarrow> sg)
            ownerStr spenderStr))))"

subsection \<open>\<open>settle\<close>\<close>

definition failure :: "string \<Rightarrow> string \<Rightarrow> string \<Rightarrow> string option \<Rightarrow> SettleResponse" where
  "failure tag tx net p =
     \<lparr> success = False, errorReason = Some tag, transaction = tx, settleNetwork = net,
       settlePayer = p \<rparr>"

text \<open>The fallback of step 1 (source lines 333 to 358): read the allowance. The answer is
  a response to return at once, or \<open>None\<close> to go on.\<close>

definition allowanceFallback ::
  "Signer \<Rightarrow> SignerCall list \<Rightarrow> string \<Rightarrow> string \<Rightarrow> string \<Rightarrow> int \<Rightarrow> string
     \<Rightarrow> SettleResponse option \<times> SignerCall list" where
  "allowanceFallback signer h erc20Address payerAddress spenderAddress totalSpent net =
     (let call = allowance payerAddress spenderAddress;
          h' = h @ [ReadContract erc20Address call]
      in case readContract signer h erc20Address call of
           None \<Rightarrow> (Some (failure ''permit_failed'' [] net (Some payerAddress)), h')
         | Some granted \<Rightarrow>
             if granted < totalSpent
             then (Some (failure ''insufficient_allowance'' [] net (Some payerAddress)), h')
             else (None, h'))"

text \<open>Step 1 (source lines 321 to 359): submit the permit and await its receipt; when
  either throws, fall back to the allowance.\<close>

definition tryPermit ::
  "Signer \<Rightarrow> SignerCall list \<Rightarrow> string \<Rightarrow> ContractCall \<Rightarrow> string \<Rightarrow> string \<Rightarrow> int \<Rightarrow> string
     \<Rightarrow> SettleResponse option \<times> SignerCall list" where
  "tryPermit signer h erc20Address permitCall payerAddress spenderAddress totalSpent net =
     (let h1 = h @ [WriteContract erc20Address permitCall] in
      case writeContract signer h erc20Address permitCall of
        None \<Rightarrow> allowanceFallback signer h1 erc20Address payerAddress spenderAddress totalSpent net
      | Some permitTx \<Rightarrow>
          (let h2 = h1 @ [WaitForTransactionReceipt permitTx] in
           case waitForTransactionReceipt signer h1 permitTx of
             None \<Rightarrow> allowanceFallback signer h2 erc20Address payerAddress spenderAddress totalSpent net
           | Some st \<Rightarrow> (None, h2)))"

text \<open>Step 2 (source lines 361 to 396): \<open>transferFrom\<close>, all of it inside one \<open>try\<close>.\<close>

definition transferFromStep ::
  "Runtime \<Rightarrow> Signer \<Rightarrow> SignerCall list \<Rightarrow> string \<Rightarrow> string \<Rightarrow> string \<Rightarrow> int \<Rightarrow> string
     \<Rightarrow> SettleResponse \<times> SignerCall list" where
  "transferFromStep rt signer h erc20Address payerAddress payToStr totalSpent net =
     (case getAddress rt payToStr of
        None \<Rightarrow> (failure ''transaction_failed'' [] net (Some payerAddress), h)
      | Some payToAddress \<Rightarrow>
          (let call = transferFrom payerAddress payToAddress totalSpent;
               h1 = h @ [WriteContract erc20Address call]
           in case writeContract signer h erc20Address call of
                None \<Rightarrow> (failure ''transaction_failed'' [] net (Some payerAddress), h1)
              | Some tx \<Rightarrow>
                  (let h2 = h1 @ [WaitForTransactionReceipt tx] in
                   case waitForTransactionReceipt signer h1 tx of
                     None \<Rightarrow> (failure ''transaction_failed'' [] net (Some payerAddress), h2)
                   | Some st \<Rightarrow>
                       if st \<noteq> ''success''
                       then (failure ''invalid_transaction_state'' tx net (Some payerAddress), h2)
                       else (\<lparr> success = True, errorReason = None, transaction = tx,
                               settleNetwork = net, settlePayer = Some payerAddress \<rparr>, h2))))"

text \<open>\<open>!parsedSig.v\<close> for a \<open>bigint | undefined\<close>.\<close>

fun falsyBigint :: "int option \<Rightarrow> bool" where
  "falsyBigint None = True"
| "falsyBigint (Some n) = (n = 0)"

text \<open>\<open>getAddress(x)\<close> for an \<open>x\<close> that may be \<open>undefined\<close>: \<open>undefined\<close> is not an
  address.\<close>

definition getAddressOpt :: "Runtime \<Rightarrow> string option \<Rightarrow> string option" where
  "getAddressOpt rt x = (case x of None \<Rightarrow> None | Some s \<Rightarrow> getAddress rt s)"

text \<open>
  \<open>settle\<close>, in three parts: the re-verification (source lines 264 to 274), the addresses,
  the cap and the asset (lines 276 to 296), and the signature with the two on-chain steps
  (lines 298 to 396).
\<close>

definition settleOnChain ::
  "Runtime \<Rightarrow> Signer \<Rightarrow> SignerCall list \<Rightarrow> PaymentPayload \<Rightarrow> PaymentRequirements
     \<Rightarrow> UptoEvmAuthorization \<Rightarrow> string \<Rightarrow> string \<Rightarrow> string \<Rightarrow> int \<Rightarrow> int
     \<Rightarrow> (SchemeError + SettleResponse) \<times> SignerCall list" where
  "settleOnChain rt signer h0 pl requirements auth payerAddress spenderAddress erc20Address
       capValue totalSpent =
     (let net = network (accepted pl) in
      case (case signature (payload pl) of None \<Rightarrow> None | Some sg \<Rightarrow> parseSignature rt sg) of
        None \<Rightarrow> (Inr (failure ''unsupported_signature_type'' [] net (Some payerAddress)), h0)
      | Some parsedSig \<Rightarrow>
      if falsyBigint (sig_v parsedSig) \<and> sig_yParity parsedSig = None
      then (Inr (failure ''unsupported_signature_type'' [] net (Some payerAddress)), h0)
      else
      let v = nullish (sig_v parsedSig) (sig_yParity parsedSig);
          deadlineValue = toBigInt (auth_validBefore auth);
          permitCall = permit payerAddress spenderAddress capValue deadlineValue v
                         (sig_r parsedSig) (sig_s parsedSig)
      in
      (case tryPermit signer h0 erc20Address permitCall payerAddress spenderAddress totalSpent net of
        (Some early, h1) \<Rightarrow> (Inr early, h1)
      | (None, h1) \<Rightarrow>
          (case transferFromStep rt signer h1 erc20Address payerAddress (payTo requirements)
                  totalSpent net of
             (response, h2) \<Rightarrow> (Inr response, h2))))"

definition settleVerified ::
  "Runtime \<Rightarrow> Signer \<Rightarrow> SignerCall list \<Rightarrow> PaymentPayload \<Rightarrow> PaymentRequirements
     \<Rightarrow> (SchemeError + SettleResponse) \<times> SignerCall list" where
  "settleVerified rt signer h0 pl requirements =
     (let net = network (accepted pl) in
      case authorization (payload pl) of
        None \<Rightarrow> (Inl TypeError, h0)
      | Some auth \<Rightarrow>
      (case getAddressOpt rt (auth_from auth) of
        None \<Rightarrow> (Inl InvalidAddressError, h0)
      | Some payerAddress \<Rightarrow>
      (case getAddressOpt rt (nullish (auth_to auth) (Some (payTo requirements))) of
        None \<Rightarrow> (Inl InvalidAddressError, h0)
      | Some spenderAddress \<Rightarrow>
      let capValue = toBigInt (auth_value auth);
          totalSpent = toBigInt (Some (amount requirements))
      in
      if capValue < totalSpent
      then (Inr (failure ''total_exceeds_cap'' [] net (Some payerAddress)), h0)
      else
      (case getAddress rt (asset requirements) of
        None \<Rightarrow> (Inl InvalidAddressError, h0)
      | Some erc20Address \<Rightarrow>
          settleOnChain rt signer h0 pl requirements auth payerAddress spenderAddress
            erc20Address capValue totalSpent))))"

definition settle ::
  "Runtime \<Rightarrow> Signer \<Rightarrow> int \<Rightarrow> SignerCall list \<Rightarrow> PaymentPayload \<Rightarrow> PaymentRequirements
     \<Rightarrow> (SchemeError + SettleResponse) \<times> SignerCall list" where
  "settle rt signer nowMs h pl requirements =
     (case verify rt signer nowMs h pl requirements of
        (Inl err, h0) \<Rightarrow> (Inl err, h0)
      | (Inr verification, h0) \<Rightarrow>
          if \<not> isValid verification
          then (Inr \<lparr> success = False,
                      errorReason = Some (case invalidReason verification of
                                            None \<Rightarrow> ''invalid_upto_evm_payload''
                                          | Some tag \<Rightarrow> tag),
                      transaction = [],
                      settleNetwork = network (accepted pl),
                      settlePayer = payer verification \<rparr>, h0)
          else settleVerified rt signer h0 pl requirements)"

text \<open>The checks of \<open>verify\<close> that come before the cap comparison (source lines 101 to
  160) all pass, and no \<open>getAddress\<close> among them throws.\<close>

definition reachesCapCheck :: "Runtime \<Rightarrow> PaymentPayload \<Rightarrow> PaymentRequirements \<Rightarrow> bool" where
  "reachesCapCheck rt pl requirements =
     (scheme (accepted pl) = ''upto'' \<and> scheme requirements = ''upto''
      \<and> (case authorization (payload pl) of
            None \<Rightarrow> False
          | Some auth \<Rightarrow>
              \<not> falsy (signature (payload pl))
              \<and> \<not> falsy (auth_from auth)
              \<and> \<not> falsy (nullish (auth_to auth) (Some (payTo requirements)))
              \<and> \<not> falsy (auth_nonce auth)
              \<and> \<not> falsy (auth_validBefore auth)
              \<and> \<not> falsy (auth_value auth)
              \<and> getAddressOpt rt (auth_from auth) \<noteq> None
              \<and> getAddressOpt rt (nullish (auth_to auth) (Some (payTo requirements))) \<noteq> None
              \<and> network (accepted pl) = network requirements
              \<and> \<not> falsy (extraField name (extra requirements))
              \<and> \<not> falsy (extraField version (extra requirements))
              \<and> getAddress rt (payTo requirements) \<noteq> None
              \<and> getAddressOpt rt (nullish (auth_to auth) (Some (payTo requirements)))
                   = getAddress rt (payTo requirements)))"

text \<open>The parsed integers \<open>verify\<close> compares.\<close>

definition capOf :: "PaymentPayload \<Rightarrow> int" where
  "capOf pl = toBigInt (case authorization (payload pl) of None \<Rightarrow> None | Some a \<Rightarrow> auth_value a)"

definition deadlineOf :: "PaymentPayload \<Rightarrow> int" where
  "deadlineOf pl =
     toBigInt (case authorization (payload pl) of None \<Rightarrow> None | Some a \<Rightarrow> auth_validBefore a)"

definition requiredAmountOf :: "PaymentRequirements \<Rightarrow> int" where
  "requiredAmountOf requirements = toBigInt (Some (amount requirements))"

definition maxRequiredOf :: "PaymentRequirements \<Rightarrow> int" where
  "maxRequiredOf requirements =
     toBigInt (nullish (extraField maxAmountRequired (extra requirements))
                       (extraField maxAmount (extra requirements)))"

text \<open>All checks before the deadline comparison (source lines 101 to 182) pass.\<close>

definition reachesDeadlineCheck :: "Runtime \<Rightarrow> PaymentPayload \<Rightarrow> PaymentRequirements \<Rightarrow> bool" where
  "reachesDeadlineCheck rt pl requirements =
     (reachesCapCheck rt pl requirements
      \<and> requiredAmountOf requirements \<le> capOf pl
      \<and> (maxRequiredOf requirements \<le> 0 \<or> maxRequiredOf requirements \<le> capOf pl))"

section \<open>Example data\<close>

text \<open>The happy-path request of the spec (8, scenario 2) and a session on it with three
  accrued charges of 100000 (scenario 4).\<close>

definition demoRequirements :: PaymentRequirements where
  "demoRequirements =
     \<lparr> scheme = ''upto'', network = ''eip155:8453'',
       asset = ''0x833589fCD6eDb6E08f4c7C32D4f71b54bdA02913'',
       payTo = ''0x00000000000000000000000000000000000000b0'',
       amount = ''250000'', maxTimeoutSeconds = 300,
       extra = Some \<lparr> name = Some ''USD Coin'', version = Some ''2'',
                      maxAmountRequired = None, maxAmount = None \<rparr> \<rparr>"

definition demoAuthorization :: UptoEvmAuthorization where
  "demoAuthorization =
     \<lparr> auth_from = Some ''0x00000000000000000000000000000000000000a0'',
       auth_to = Some ''0x00000000000000000000000000000000000000b0'',
       auth_value = Some ''1000000'', auth_validAfter = None,
       auth_validBefore = Some ''2000000000'', auth_nonce = Some ''0'' \<rparr>"

definition demoPayload :: PaymentPayload where
  "demoPayload =
     \<lparr> x402Version = 2, accepted = demoRequirements,
       payload = \<lparr> authorization = Some demoAuthorization, signature = Some ''0x1b'' \<rparr> \<rparr>"

text \<open>The same payload with another \<open>validBefore\<close>, and the same requirements with a
  \<open>maxAmountRequired\<close> that is no number.\<close>

definition payloadValidBefore :: "string \<Rightarrow> PaymentPayload" where
  "payloadValidBefore vb =
     demoPayload \<lparr> payload :=
       \<lparr> authorization = Some (demoAuthorization \<lparr> auth_validBefore := Some vb \<rparr>),
         signature = Some ''0x1b'' \<rparr> \<rparr>"

definition requirementsBadMax :: PaymentRequirements where
  "requirementsBadMax =
     demoRequirements \<lparr> extra :=
       Some \<lparr> name = Some ''USD Coin'', version = Some ''2'',
              maxAmountRequired = Some ''abc'', maxAmount = None \<rparr> \<rparr>"

text \<open>The same payload with another \<open>value\<close>.\<close>

definition payloadCapValue :: "string \<Rightarrow> PaymentPayload" where
  "payloadCapValue v =
     demoPayload \<lparr> payload :=
       \<lparr> authorization = Some (demoAuthorization \<lparr> auth_value := Some v \<rparr>),
         signature = Some ''0x1b'' \<rparr> \<rparr>"

text \<open>The same payload with another \<open>nonce\<close>.\<close>

definition payloadNonceValue :: "string \<Rightarrow> PaymentPayload" where
  "payloadNonceValue n =
     demoPayload \<lparr> payload :=
       \<lparr> authorization = Some (demoAuthorization \<lparr> auth_nonce := Some n \<rparr>),
         signature = Some ''0x1b'' \<rparr> \<rparr>"

text \<open>The same requirements asking for more than the cap of 1000000.\<close>

definition requirementsOverCap :: PaymentRequirements where
  "requirementsOverCap = demoRequirements \<lparr> amount := ''2000000'' \<rparr>"

text \<open>The same payload signed by something that is not an address.\<close>

definition payloadBadFrom :: PaymentPayload where
  "payloadBadFrom =
     demoPayload \<lparr> payload :=
       \<lparr> authorization = Some (demoAuthorization \<lparr> auth_from := Some ''0x1234'' \<rparr>),
         signature = Some ''0x1b'' \<rparr> \<rparr>"

definition demoSession :: Session where
  "demoSession =
     \<lparr> paymentPayload = demoPayload, paymentRequirements = demoRequirements,
       cap = 1000000, deadline = 2000000000, settledTotal = 0, pendingSpent = 300000,
       status = Open, lastSettlement = None \<rparr>"

definition demoStore :: UptoSessionStore where
  "demoStore = Map.empty(''s1'' \<mapsto> demoSession)"

definition closedStore :: UptoSessionStore where
  "closedStore = Map.empty(''s1'' \<mapsto> demoSession \<lparr> status := Closed \<rparr>)"

text \<open>A client that settles, and one whose call throws.\<close>

definition clientOk :: UptoFacilitatorClient where
  "clientOk p r = Inr \<lparr> success = True, errorReason = None, transaction = ''0xfeed'',
                        settleNetwork = network r, settlePayer = None \<rparr>"

definition clientThrows :: UptoFacilitatorClient where
  "clientThrows p r = Inl (Error ''rpc unreachable'')"

text \<open>
  An example runtime: \<open>getAddress\<close> accepts the strings of 42 characters that start with
  \<open>0x\<close> and returns them as they are, \<open>parseSignature\<close> knows one signature, and \<open>Number\<close>
  reads decimal digits.
\<close>

definition demoRuntime :: Runtime where
  "demoRuntime =
     \<lparr> getAddress = (\<lambda>s. if length s = 42 \<and> take 2 s = ''0x'' then Some s else None),
       parseSignature =
         (\<lambda>s. if s = ''0x1b''
              then Some \<lparr> sig_r = ''0x01'', sig_s = ''0x02'', sig_v = Some 27, sig_yParity = Some 0 \<rparr>
              else None),
       Number_string =
         (\<lambda>s. case parseDigits 10 s of None \<Rightarrow> NotFinite | Some n \<Rightarrow> Integer (int n)) \<rparr>"

text \<open>The typed data \<open>verify\<close> hands to the signer for the example payload.\<close>

definition demoTypedData :: TypedDataRequest where
  "demoTypedData =
     \<lparr> td_address = ''0x00000000000000000000000000000000000000a0'',
       td_domain = \<lparr> domain_name = ''USD Coin'', domain_version = ''2'',
                     domain_chainId = Integer 8453,
                     domain_verifyingContract = ''0x833589fCD6eDb6E08f4c7C32D4f71b54bdA02913'' \<rparr>,
       td_primaryType = ''Permit'',
       td_message = \<lparr> msg_owner = ''0x00000000000000000000000000000000000000a0'',
                      msg_spender = ''0x00000000000000000000000000000000000000b0'',
                      msg_value = 1000000, msg_nonce = 0, msg_deadline = 2000000000 \<rparr>,
       td_signature = ''0x1b'' \<rparr>"

text \<open>A signer for which every call succeeds, and one whose permit has been used: its
  \<open>permit\<close> transaction throws and the allowance left is 700000.\<close>

definition signerFresh :: Signer where
  "signerFresh =
     \<lparr> verifyTypedData = (\<lambda>h r. Some True),
       writeContract = (\<lambda>h a c. case c of
                                   permit ow sp va dl v r s \<Rightarrow> Some ''0xa1''
                                 | allowance ow sp \<Rightarrow> None
                                 | transferFrom fr t va \<Rightarrow> Some ''0xa2''),
       waitForTransactionReceipt = (\<lambda>h tx. Some ''success''),
       readContract = (\<lambda>h a c. Some 0) \<rparr>"

definition signerReplay :: Signer where
  "signerReplay =
     \<lparr> verifyTypedData = (\<lambda>h r. Some True),
       writeContract = (\<lambda>h a c. case c of
                                   permit ow sp va dl v r s \<Rightarrow> None
                                 | allowance ow sp \<Rightarrow> None
                                 | transferFrom fr t va \<Rightarrow> Some ''0xb2''),
       waitForTransactionReceipt = (\<lambda>h tx. Some ''success''),
       readContract = (\<lambda>h a c. Some 700000) \<rparr>"

section \<open>Facts about the JavaScript values\<close>

lemma natToString_small: "n < 10 \<Longrightarrow> natToString n = [digitChar n]"
  by (simp add: natToString.simps)

lemma natToString_large:
  "\<not> n < 10 \<Longrightarrow> natToString n = natToString (n div 10) @ [digitChar (n mod 10)]"
  by (subst natToString.simps) simp

lemma digitValue_digitChar: "d < 10 \<Longrightarrow> digitValue (digitChar d) = Some d"
proof -
  assume "d < 10"
  then have "d \<in> {0,1,2,3,4,5,6,7,8,9}" by auto
  then show ?thesis
    by (auto simp: digitValue_def digitChar_def)
qed

lemma digitChar_not_space: "d < 10 \<Longrightarrow> \<not> isStrWhiteSpaceChar (digitChar d)"
proof -
  assume "d < 10"
  then have "d \<in> {0,1,2,3,4,5,6,7,8,9}" by auto
  then show ?thesis
    by (auto simp: isStrWhiteSpaceChar_def digitChar_def)
qed

lemma digitChar_not_special:
  "d < 10 \<Longrightarrow> digitChar d \<notin> {CHR ''+'', CHR ''-'', CHR ''x'', CHR ''X'', CHR ''o'', CHR ''O'', CHR ''b'', CHR ''B''}"
proof -
  assume "d < 10"
  then have "d \<in> {0,1,2,3,4,5,6,7,8,9}" by auto
  then show ?thesis
    by (auto simp: digitChar_def)
qed

lemma digitsValue_append:
  "digitsValue b acc (xs @ ys) =
     (case digitsValue b acc xs of None \<Rightarrow> None | Some a \<Rightarrow> digitsValue b a ys)"
  by (induction xs arbitrary: acc) (auto split: option.splits)

lemma digitsValue_natToString: "digitsValue 10 0 (natToString n) = Some n"
proof (induction n rule: natToString.induct)
  case (1 n)
  show ?case
  proof (cases "n < 10")
    case True
    then show ?thesis
      by (simp add: natToString_small digitValue_digitChar)
  next
    case False
    with 1 have "digitsValue 10 0 (natToString (n div 10)) = Some (n div 10)" by simp
    with False show ?thesis
      by (simp add: natToString_large digitsValue_append digitValue_digitChar)
  qed
qed

lemma natToString_image: "set (natToString n) \<subseteq> digitChar ` {..<10}"
proof (induction n rule: natToString.induct)
  case (1 n)
  show ?case
  proof (cases "n < 10")
    case True
    then show ?thesis by (simp add: natToString_small)
  next
    case False
    have "digitChar (n mod 10) \<in> digitChar ` {..<10}"
      by (rule imageI) simp
    with False 1 show ?thesis
      by (simp add: natToString_large)
  qed
qed

lemma natToString_digits: "c \<in> set (natToString n) \<Longrightarrow> \<exists>d<10. c = digitChar d"
  using natToString_image [of n] by auto

lemma natToString_nonempty: "natToString n \<noteq> []"
  by (cases "n < 10") (simp_all add: natToString_small natToString_large)

lemma trimString_id:
  assumes "s \<noteq> []" "\<not> isStrWhiteSpaceChar (hd s)" "\<not> isStrWhiteSpaceChar (last s)"
  shows "trimString s = s"
proof -
  from assms have a: "dropWhile isStrWhiteSpaceChar s = s"
    by (cases s) auto
  from assms have "rev s \<noteq> []" "\<not> isStrWhiteSpaceChar (hd (rev s))"
    by (simp_all add: hd_rev)
  then have "dropWhile isStrWhiteSpaceChar (rev s) = rev s"
    by (cases "rev s") auto
  with a show ?thesis by (simp add: trimString_def)
qed

lemma parseDigits_natToString: "parseDigits 10 (natToString n) = Some n"
  by (simp add: parseDigits_def natToString_nonempty digitsValue_natToString)

lemma natToString_chars:
  assumes "x \<in> set (natToString n)"
  shows "\<not> isStrWhiteSpaceChar x" "x \<noteq> CHR ''+''" "x \<noteq> CHR ''-''"
    "x \<noteq> CHR ''x''" "x \<noteq> CHR ''X''" "x \<noteq> CHR ''o''" "x \<noteq> CHR ''O''"
    "x \<noteq> CHR ''b''" "x \<noteq> CHR ''B''"
proof -
  from natToString_digits [OF assms] obtain d where d: "d < 10" "x = digitChar d" by blast
  from d show "\<not> isStrWhiteSpaceChar x" by (simp add: digitChar_not_space)
  from digitChar_not_special [OF d(1)] d(2)
  show "x \<noteq> CHR ''+''" "x \<noteq> CHR ''-''"
    "x \<noteq> CHR ''x''" "x \<noteq> CHR ''X''" "x \<noteq> CHR ''o''" "x \<noteq> CHR ''O''"
    "x \<noteq> CHR ''b''" "x \<noteq> CHR ''B''"
    by simp_all
qed

lemma trimString_natToString: "trimString (natToString n) = natToString n"
proof (rule trimString_id)
  show "natToString n \<noteq> []" by (rule natToString_nonempty)
  have "hd (natToString n) \<in> set (natToString n)"
    by (simp add: natToString_nonempty)
  then show "\<not> isStrWhiteSpaceChar (hd (natToString n))" by (rule natToString_chars)
  have "last (natToString n) \<in> set (natToString n)"
    by (simp add: natToString_nonempty)
  then show "\<not> isStrWhiteSpaceChar (last (natToString n))" by (rule natToString_chars)
qed

lemma signedInteger_natToString: "signedInteger (natToString n) = Some (int n)"
proof -
  obtain c u where cu: "natToString n = c # u"
    using natToString_nonempty by (cases "natToString n") auto
  then have "c \<in> set (natToString n)" by simp
  then have "c \<noteq> CHR ''+''" "c \<noteq> CHR ''-''" by (rule natToString_chars)+
  moreover have "parseDigits 10 (c # u) = Some n"
    using parseDigits_natToString [of n] cu by simp
  ultimately show ?thesis
    by (simp add: signedInteger_def cu)
qed

lemma StringToBigInt_natToString: "StringToBigInt (natToString n) = Some (int n)"
proof -
  obtain c u where cu: "natToString n = c # u"
    using natToString_nonempty by (cases "natToString n") auto
  have si: "signedInteger (c # u) = Some (int n)"
    using signedInteger_natToString [of n] cu by simp
  have tr: "trimString (c # u) = c # u"
    using trimString_natToString [of n] cu by simp
  show ?thesis
  proof (cases u)
    case Nil
    with tr si show ?thesis by (simp add: StringToBigInt_def cu)
  next
    case (Cons x ds)
    with cu have "x \<in> set (natToString n)" by simp
    then have "x \<noteq> CHR ''x''" "x \<noteq> CHR ''X''" "x \<noteq> CHR ''o''" "x \<noteq> CHR ''O''"
      "x \<noteq> CHR ''b''" "x \<noteq> CHR ''B''"
      by (rule natToString_chars)+
    with tr si Cons show ?thesis by (simp add: StringToBigInt_def cu)
  qed
qed

lemma StringToBigInt_bigintToString: "StringToBigInt (bigintToString i) = Some i"
proof (cases "i < 0")
  case False
  then show ?thesis
    by (simp add: bigintToString_def StringToBigInt_natToString)
next
  case True
  define m where "m = nat (- i)"
  obtain x ds where xs: "natToString m = x # ds"
    using natToString_nonempty by (cases "natToString m") auto
  have "last (natToString m) \<in> set (natToString m)"
    by (simp add: natToString_nonempty)
  then have "\<not> isStrWhiteSpaceChar (last (natToString m))" by (rule natToString_chars)
  then have l: "\<not> isStrWhiteSpaceChar (last (CHR ''-'' # x # ds))"
    by (simp add: xs)
  have h: "\<not> isStrWhiteSpaceChar (hd (CHR ''-'' # x # ds))"
    by (simp add: isStrWhiteSpaceChar_def)
  have tr: "trimString (CHR ''-'' # x # ds) = CHR ''-'' # x # ds"
    using h l by (intro trimString_id) simp_all
  have "parseDigits 10 (x # ds) = Some m"
    using parseDigits_natToString [of m] xs by simp
  then have si: "signedInteger (CHR ''-'' # x # ds) = Some (- int m)"
    by (simp add: signedInteger_def)
  have "StringToBigInt (CHR ''-'' # x # ds) = Some (- int m)"
    using tr si by (simp add: StringToBigInt_def)
  moreover have "- int m = i" using True by (simp add: m_def)
  moreover have "bigintToString i = CHR ''-'' # x # ds"
    using True xs by (simp add: bigintToString_def m_def)
  ultimately show ?thesis by simp
qed

lemma bigintToString_300000: "bigintToString 300000 = ''300000''"
  by (simp add: bigintToString_def natToString_large natToString_small digitChar_def)

section \<open>Facts about the orchestrator\<close>

lemma demoStore_s1: "demoStore ''s1'' = Some demoSession"
  by (simp add: demoStore_def)

lemma demoSession_open: "status demoSession = Open"
  by (simp add: demoSession_def)

lemma demoSession_invariant: "capInvariant demoSession"
  by (simp add: capInvariant_def demoSession_def)

lemma settle_sum_preserved:
  assumes "st i = Some s"
  shows "\<exists>s'. finalStore (settleUptoSession st c sid why ca buf t1 t2) i = Some s'
           \<and> cap s' = cap s
           \<and> ((settledTotal s' = settledTotal s + pendingSpent s \<and> pendingSpent s' = 0)
                \<or> (settledTotal s' = settledTotal s \<and> pendingSpent s' = pendingSpent s))"
  using assms
  by (cases "i = sid")
     (auto simp: settleUptoSession_def store_get_def store_set_def Let_def
           split: option.splits)

lemma settle_writes:
  assumes "st sid = Some s"
    and "(j, w) \<in> set (storeSets (settleUptoSession st c sid why ca buf t1 t2))"
  shows "j = sid \<and> cap w = cap s
           \<and> ((settledTotal w = settledTotal s + pendingSpent s \<and> pendingSpent w = 0)
                \<or> (settledTotal w = settledTotal s \<and> pendingSpent w = pendingSpent s))"
  using assms
  by (auto simp: settleUptoSession_def store_get_def store_set_def Let_def
           split: option.splits if_splits)

lemma settle_pending_run:
  assumes "st sid = Some s" "status s = Open" "0 < pendingSpent s"
  shows "clientCalls (settleUptoSession st c sid why ca buf t1 t2)
           = [(paymentPayload s,
               (paymentRequirements s) \<lparr> amount := bigintToString (pendingSpent s) \<rparr>)]"
  using assms
  by (simp add: settleUptoSession_def store_get_def Let_def split: option.splits)

lemma settle_success_commit:
  assumes "st sid = Some s" "status s = Open" "0 < pendingSpent s"
    and "c (paymentPayload s)
           ((paymentRequirements s) \<lparr> amount := bigintToString (pendingSpent s) \<rparr>) = Inr rc"
    and "success rc"
    and "outcome (settleUptoSession st c sid why ca buf t1 t2) = Returns"
  shows "\<exists>s'. finalStore (settleUptoSession st c sid why ca buf t1 t2) sid = Some s'
            \<and> settledTotal s' = settledTotal s + pendingSpent s \<and> pendingSpent s' = 0
            \<and> lastSettlement s' = Some \<lparr> atMs = t1, reason = why, receipt = rc \<rparr>"
  using assms
  by (auto simp: settleUptoSession_def store_get_def store_set_def Let_def catchReceipt_def
           split: option.splits if_splits)

lemma settle_returns:
  assumes "ca \<or> BigInt_number buf \<noteq> None"
  shows "outcome (settleUptoSession st c sid why ca buf t1 t2) = Returns"
  using assms
  by (auto simp: settleUptoSession_def store_get_def Let_def split: option.splits)

lemma settle_failure_atomic:
  assumes "st sid = Some s" "status s = Open" "0 < pendingSpent s"
    and "c (paymentPayload s)
           ((paymentRequirements s) \<lparr> amount := bigintToString (pendingSpent s) \<rparr>) = res"
    and "(\<exists>e. res = Inl e) \<or> (\<exists>rc. res = Inr rc \<and> \<not> success rc)"
    and "outcome (settleUptoSession st c sid why ca buf t1 t2) = Returns"
  shows "\<exists>s'. finalStore (settleUptoSession st c sid why ca buf t1 t2) sid = Some s'
            \<and> settledTotal s' = settledTotal s \<and> pendingSpent s' = pendingSpent s
            \<and> lastSettlement s' = Some \<lparr> atMs = t1, reason = why, receipt = catchReceipt s res \<rparr>
            \<and> \<not> success (catchReceipt s res)
            \<and> (\<forall>msg. res = Inl (Error msg) \<longrightarrow>
                  errorReason (catchReceipt s res) = Some msg
                  \<and> transaction (catchReceipt s res) = [])
            \<and> (res = Inl NonError \<longrightarrow>
                  errorReason (catchReceipt s res) = Some ''settlement_failed''
                  \<and> transaction (catchReceipt s res) = [])"
  using assms
  by (auto simp: settleUptoSession_def store_get_def store_set_def Let_def catchReceipt_def
           split: option.splits if_splits thrown.splits)

text \<open>With an integer \<open>deadlineBufferSec\<close> a failed settlement is atomic and the call
  returns.\<close>

lemma settle_failure_nonfatal_integer_buffer:
  assumes "st sid = Some s" "status s = Open" "0 < pendingSpent s"
    and "c (paymentPayload s)
           ((paymentRequirements s) \<lparr> amount := bigintToString (pendingSpent s) \<rparr>) = res"
    and "(\<exists>e. res = Inl e) \<or> (\<exists>rc. res = Inr rc \<and> \<not> success rc)"
  shows "outcome (settleUptoSession st c sid why ca (Integer b) t1 t2) = Returns
         \<and> (\<exists>s'. finalStore (settleUptoSession st c sid why ca (Integer b) t1 t2) sid = Some s'
                \<and> settledTotal s' = settledTotal s \<and> pendingSpent s' = pendingSpent s
                \<and> (\<exists>ls. lastSettlement s' = Some ls \<and> \<not> success (receipt ls)))"
proof -
  have r: "outcome (settleUptoSession st c sid why ca (Integer b) t1 t2) = Returns"
    by (simp add: settle_returns)
  from settle_failure_atomic [of st sid s c res why ca "Integer b" t1 t2] assms r
  obtain s' where "finalStore (settleUptoSession st c sid why ca (Integer b) t1 t2) sid = Some s'"
    "settledTotal s' = settledTotal s" "pendingSpent s' = pendingSpent s"
    "lastSettlement s' = Some \<lparr> atMs = t1, reason = why, receipt = catchReceipt s res \<rparr>"
    "\<not> success (catchReceipt s res)"
    by blast
  with r show ?thesis by simp
qed

lemma catchReceipt_status [simp]:
  "catchReceipt (s \<lparr> status := v \<rparr>) x = catchReceipt s x"
  by (cases x) (simp_all add: catchReceipt_def)

lemma settle_pending_state:
  assumes "st sid = Some s" "status s = Open" "0 < pendingSpent s"
    and "outcome (settleUptoSession st c sid why ca buf t1 t2) = Returns"
  shows "\<exists>s'. finalStore (settleUptoSession st c sid why ca buf t1 t2) sid = Some s'
           \<and> settledTotal s'
               = (if success (catchReceipt s (c (paymentPayload s)
                      ((paymentRequirements s) \<lparr> amount := bigintToString (pendingSpent s) \<rparr>)))
                  then settledTotal s + pendingSpent s else settledTotal s)
           \<and> pendingSpent s'
               = (if success (catchReceipt s (c (paymentPayload s)
                      ((paymentRequirements s) \<lparr> amount := bigintToString (pendingSpent s) \<rparr>)))
                  then 0 else pendingSpent s)
           \<and> lastSettlement s'
               = Some \<lparr> atMs = t1, reason = why,
                        receipt = catchReceipt s (c (paymentPayload s)
                      ((paymentRequirements s) \<lparr> amount := bigintToString (pendingSpent s) \<rparr>)) \<rparr>
           \<and> cap s' = cap s \<and> deadline s' = deadline s
           \<and> paymentPayload s' = paymentPayload s
           \<and> paymentRequirements s' = paymentRequirements s
           \<and> status s'
               = (if ca
                     \<or> cap s \<le> (if success (catchReceipt s (c (paymentPayload s)
                      ((paymentRequirements s) \<lparr> amount := bigintToString (pendingSpent s) \<rparr>)))
                                 then settledTotal s + pendingSpent s else settledTotal s)
                     \<or> (case BigInt_number buf of None \<Rightarrow> False
                         | Some b \<Rightarrow> deadline s \<le> t2 div 1000 + b)
                  then Closed else Open)"
  using assms
  by (auto simp: settleUptoSession_def store_get_def store_set_def Let_def
           split: option.splits if_splits)

lemma demoSession_pending: "0 < pendingSpent demoSession"
  by (simp add: demoSession_def)

lemma demo_receipt:
  "catchReceipt demoSession (clientOk (paymentPayload demoSession)
     ((paymentRequirements demoSession) \<lparr> amount := bigintToString (pendingSpent demoSession) \<rparr>))
   = \<lparr> success = True, errorReason = None, transaction = ''0xfeed'',
       settleNetwork = ''eip155:8453'', settlePayer = None \<rparr>"
  by (simp add: catchReceipt_def clientOk_def demoSession_def demoRequirements_def)

text \<open>
  Claim C1. \<open>settleUptoSession\<close> preserves the cap invariant: a session of the store
  that satisfies \<open>settledTotal + pendingSpent \<le> cap\<close> before the call is in the store after
  it and satisfies it still, and when it is the session being settled so does every
  session the call writes on the way.
  The cap is untouched, and either \<open>settledTotal\<close> has grown by exactly the old
  \<open>pendingSpent\<close> while \<open>pendingSpent\<close> is zero, or both fields are unchanged.
\<close>

theorem settle_preserves_cap_invariant:
  assumes "st i = Some s" and "capInvariant s"
  shows "(\<exists>s'. finalStore (settleUptoSession st c sid why ca buf t1 t2) i = Some s'
               \<and> capInvariant s'
               \<and> cap s' = cap s
               \<and> ((settledTotal s' = settledTotal s + pendingSpent s \<and> pendingSpent s' = 0)
                    \<or> (settledTotal s' = settledTotal s \<and> pendingSpent s' = pendingSpent s)))
         \<and> (i = sid
              \<longrightarrow> list_all (\<lambda>w. capInvariant (snd w))
                    (storeSets (settleUptoSession st c sid why ca buf t1 t2)))"
proof (intro conjI impI)
  from settle_sum_preserved [of st i s c sid why ca buf t1 t2] assms(1)
  obtain s' where s': "finalStore (settleUptoSession st c sid why ca buf t1 t2) i = Some s'"
      "cap s' = cap s"
      "(settledTotal s' = settledTotal s + pendingSpent s \<and> pendingSpent s' = 0)
         \<or> (settledTotal s' = settledTotal s \<and> pendingSpent s' = pendingSpent s)"
    by blast
  from s'(2,3) assms(2) have "capInvariant s'"
    by (auto simp: capInvariant_def)
  with s' show "\<exists>s'. finalStore (settleUptoSession st c sid why ca buf t1 t2) i = Some s'
               \<and> capInvariant s'
               \<and> cap s' = cap s
               \<and> ((settledTotal s' = settledTotal s + pendingSpent s \<and> pendingSpent s' = 0)
                    \<or> (settledTotal s' = settledTotal s \<and> pendingSpent s' = pendingSpent s))"
    by blast
next
  assume i: "i = sid"
  have "capInvariant (snd w)"
    if "w \<in> set (storeSets (settleUptoSession st c sid why ca buf t1 t2))" for w
  proof -
    from that
    have "(fst w, snd w) \<in> set (storeSets (settleUptoSession st c sid why ca buf t1 t2))"
      by simp
    from settle_writes [of st sid s "fst w" "snd w" c why ca buf t1 t2] assms i this
    show ?thesis
      by (auto simp: capInvariant_def)
  qed
  then show "list_all (\<lambda>w. capInvariant (snd w))
              (storeSets (settleUptoSession st c sid why ca buf t1 t2))"
    by (simp add: list_all_iff)
qed

theorem settle_preserves_cap_invariant_witness:
  "demoStore ''s1'' = Some demoSession \<and> capInvariant demoSession
   \<and> (\<exists>s'. finalStore (settleUptoSession demoStore clientOk ''s1'' ''periodic'' False
                          (Integer 60) 1700000000123 1700000000456) ''s1'' = Some s'
            \<and> capInvariant s')"
  using settle_preserves_cap_invariant [of demoStore "''s1''" demoSession clientOk
          "''s1''" "''periodic''" False "Integer 60" 1700000000123 1700000000456]
        demoStore_s1 demoSession_invariant
  by blast

text \<open>
  Claim C2, at the input where the code departs from it. The client throws, \<open>closeAfter\<close>
  is false and \<open>deadlineBufferSec\<close> is a number that is not an integer: the conversion
  \<open>BigInt(deadlineBufferSec)\<close> in the final status test throws a \<open>RangeError\<close> out of
  \<open>settleUptoSession\<close>, after the session was stored as \<open>settling\<close>.
\<close>

theorem settle_throws_on_fractional_buffer:
  "outcome (settleUptoSession demoStore clientThrows ''s1'' ''periodic'' False Fraction
              1700000000123 1700000000456) = Throws_RangeError
   \<and> map_option status
        (finalStore (settleUptoSession demoStore clientThrows ''s1'' ''periodic'' False Fraction
              1700000000123 1700000000456) ''s1'') = Some Settling"
  by (simp add: settleUptoSession_def store_get_def store_set_def Let_def demoStore_def
        demoSession_def catchReceipt_def clientThrows_def)

text \<open>
  What holds of the batched settlement on every input: one client call with the stored
  payload and the stored requirements whose \<open>amount\<close> is the decimal string of
  \<open>pendingSpent\<close>, and, when the client reports success and the call returns, a stored
  session with \<open>settledTotal\<close> increased by exactly that amount and \<open>pendingSpent = 0\<close>.
  The call returns whenever \<open>closeAfter\<close> is set or \<open>deadlineBufferSec\<close> is an integer.
\<close>

lemma settle_batches_pending_on_return:
  assumes "st sid = Some s" "status s = Open" "0 < pendingSpent s"
  shows "clientCalls (settleUptoSession st c sid why ca buf t1 t2)
           = [(paymentPayload s,
               (paymentRequirements s) \<lparr> amount := bigintToString (pendingSpent s) \<rparr>)]
         \<and> StringToBigInt (bigintToString (pendingSpent s)) = Some (pendingSpent s)
         \<and> (\<forall>rc. c (paymentPayload s)
                    ((paymentRequirements s) \<lparr> amount := bigintToString (pendingSpent s) \<rparr>)
                    = Inr rc
                  \<and> success rc
                  \<and> outcome (settleUptoSession st c sid why ca buf t1 t2) = Returns
               \<longrightarrow> (\<exists>s'. finalStore (settleUptoSession st c sid why ca buf t1 t2) sid = Some s'
                         \<and> settledTotal s' = settledTotal s + pendingSpent s
                         \<and> pendingSpent s' = 0))
         \<and> (ca \<or> BigInt_number buf \<noteq> None
               \<longrightarrow> outcome (settleUptoSession st c sid why ca buf t1 t2) = Returns)"
proof (intro conjI allI impI)
  show "clientCalls (settleUptoSession st c sid why ca buf t1 t2)
           = [(paymentPayload s,
               (paymentRequirements s) \<lparr> amount := bigintToString (pendingSpent s) \<rparr>)]"
    using assms by (rule settle_pending_run)
next
  show "StringToBigInt (bigintToString (pendingSpent s)) = Some (pendingSpent s)"
    by (rule StringToBigInt_bigintToString)
next
  fix rc
  assume "c (paymentPayload s)
            ((paymentRequirements s) \<lparr> amount := bigintToString (pendingSpent s) \<rparr>) = Inr rc
          \<and> success rc
          \<and> outcome (settleUptoSession st c sid why ca buf t1 t2) = Returns"
  with settle_success_commit [of st sid s c rc why ca buf t1 t2] assms
  show "\<exists>s'. finalStore (settleUptoSession st c sid why ca buf t1 t2) sid = Some s'
             \<and> settledTotal s' = settledTotal s + pendingSpent s
             \<and> pendingSpent s' = 0"
    by blast
next
  assume "ca \<or> BigInt_number buf \<noteq> None"
  then show "outcome (settleUptoSession st c sid why ca buf t1 t2) = Returns"
    by (rule settle_returns)
qed

lemma settle_batches_pending_example:
  "demoStore ''s1'' = Some demoSession \<and> status demoSession = Open
   \<and> 0 < pendingSpent demoSession
   \<and> clientCalls (settleUptoSession demoStore clientOk ''s1'' ''periodic'' False (Integer 60)
                    1700000000123 1700000000456)
       = [(demoPayload, demoRequirements \<lparr> amount := ''300000'' \<rparr>)]
   \<and> (\<exists>s'. finalStore (settleUptoSession demoStore clientOk ''s1'' ''periodic'' False (Integer 60)
                    1700000000123 1700000000456) ''s1'' = Some s'
            \<and> settledTotal s' = 300000 \<and> pendingSpent s' = 0)"
proof -
  have p: "0 < pendingSpent demoSession"
    by (simp add: demoSession_def)
  have c: "clientOk (paymentPayload demoSession)
             ((paymentRequirements demoSession) \<lparr> amount := bigintToString (pendingSpent demoSession) \<rparr>)
           = Inr \<lparr> success = True, errorReason = None, transaction = ''0xfeed'',
                   settleNetwork = ''eip155:8453'', settlePayer = None \<rparr>"
    by (simp add: clientOk_def demoSession_def demoRequirements_def)
  have v: "paymentPayload demoSession = demoPayload" "paymentRequirements demoSession = demoRequirements"
     "settledTotal demoSession = 0" "pendingSpent demoSession = 300000"
    by (simp_all add: demoSession_def)
  from settle_batches_pending_on_return [of demoStore "''s1''" demoSession clientOk "''periodic''" False
        "Integer 60" 1700000000123 1700000000456, OF demoStore_s1 demoSession_open p] c
  show ?thesis
    using demoStore_s1 demoSession_open p
    by (simp add: v bigintToString_300000)
qed


text \<open>
  Claim C4. For an absent session id and for a session whose status is not \<open>open\<close>
  (\<open>settling\<close> or \<open>closed\<close>), \<open>settleUptoSession\<close> returns with the store as it was: it
  makes no \<open>store.set\<close>, calls the client not at all and changes no field of any session.
\<close>

theorem settle_skips_sessions_not_open:
  assumes "st sid = None \<or> (\<exists>s. st sid = Some s \<and> status s \<noteq> Open)"
  shows "settleUptoSession st c sid why ca buf t1 t2
           = \<lparr> outcome = Returns, finalStore = st, storeSets = [], clientCalls = [] \<rparr>"
  using assms by (auto simp: settleUptoSession_def store_get_def)

theorem settle_skips_sessions_not_open_witness:
  "closedStore ''s1'' = Some (demoSession \<lparr> status := Closed \<rparr>)
   \<and> status (demoSession \<lparr> status := Closed \<rparr>) \<noteq> Open
   \<and> settleUptoSession closedStore clientOk ''s1'' ''close'' True (Integer 60)
         1700000000123 1700000000456
       = \<lparr> outcome = Returns, finalStore = closedStore, storeSets = [], clientCalls = [] \<rparr>
   \<and> demoStore ''s2'' = None
   \<and> settleUptoSession demoStore clientOk ''s2'' ''close'' True (Integer 60)
         1700000000123 1700000000456
       = \<lparr> outcome = Returns, finalStore = demoStore, storeSets = [], clientCalls = [] \<rparr>"
proof -
  have a: "closedStore ''s1'' = Some (demoSession \<lparr> status := Closed \<rparr>)"
    by (simp add: closedStore_def)
  have b: "status (demoSession \<lparr> status := Closed \<rparr>) \<noteq> Open"
    by simp
  have n: "demoStore ''s2'' = None"
    by (simp add: demoStore_def)
  from a b have h1: "closedStore ''s1'' = None
      \<or> (\<exists>s. closedStore ''s1'' = Some s \<and> status s \<noteq> Open)"
    by blast
  from n have h2: "demoStore ''s2'' = None
      \<or> (\<exists>s. demoStore ''s2'' = Some s \<and> status s \<noteq> Open)"
    by blast
  from settle_skips_sessions_not_open [of closedStore "''s1''" clientOk "''close''" True
         "Integer 60" 1700000000123 1700000000456, OF h1]
       settle_skips_sessions_not_open [of demoStore "''s2''" clientOk "''close''" True
         "Integer 60" 1700000000123 1700000000456, OF h2]
       a b n
  show ?thesis by (intro conjI)
qed

text \<open>
  Claim C5. For an open session \<open>s\<close> with \<open>pendingSpent > 0\<close>, let the receipt be the
  client's answer (or the receipt made of what it threw) and the new total be
  \<open>settledTotal s + pendingSpent s\<close> when the receipt reports success and \<open>settledTotal s\<close>
  otherwise. Whenever the call returns, the stored session has the new total and that
  receipt, the cap and deadline of \<open>s\<close>, and its status is \<open>closed\<close> if \<open>closeAfter\<close> is
  set, or the new total has reached the cap, or \<open>deadline \<le> now + deadlineBufferSec\<close>, and
  \<open>open\<close> otherwise, never \<open>settling\<close>. With an integer \<open>deadlineBufferSec\<close> the call
  returns, and the status is \<open>closed\<close> exactly under that condition and \<open>open\<close> exactly
  otherwise. A call with the defaults uses the buffer of 60 seconds.
\<close>

theorem settle_final_status_rule:
  fixes rc :: SettleResponse and newTotal :: int and c :: UptoFacilitatorClient
  assumes "st sid = Some s" "status s = Open" "0 < pendingSpent s"
  defines "rc \<equiv> catchReceipt s (c (paymentPayload s)
                   ((paymentRequirements s) \<lparr> amount := bigintToString (pendingSpent s) \<rparr>))"
    and "newTotal \<equiv> (if success rc then settledTotal s + pendingSpent s else settledTotal s)"
  shows "(outcome (settleUptoSession st c sid why ca buf t1 t2) = Returns
            \<longrightarrow> (\<exists>s'. finalStore (settleUptoSession st c sid why ca buf t1 t2) sid = Some s'
                      \<and> status s' \<noteq> Settling
                      \<and> status s' =
                          (if ca \<or> cap s \<le> newTotal
                              \<or> (case BigInt_number buf of None \<Rightarrow> False
                                  | Some b \<Rightarrow> deadline s \<le> t2 div 1000 + b)
                           then Closed else Open)
                      \<and> settledTotal s' = newTotal
                      \<and> cap s' = cap s \<and> deadline s' = deadline s
                      \<and> lastSettlement s' = Some \<lparr> atMs = t1, reason = why, receipt = rc \<rparr>))
         \<and> (\<forall>b. buf = Integer b
               \<longrightarrow> outcome (settleUptoSession st c sid why ca buf t1 t2) = Returns
                   \<and> (\<exists>s'. finalStore (settleUptoSession st c sid why ca buf t1 t2) sid = Some s'
                          \<and> settledTotal s' = newTotal
                          \<and> cap s' = cap s \<and> deadline s' = deadline s
                          \<and> (status s' = Closed
                                \<longleftrightarrow> ca \<or> cap s \<le> newTotal \<or> deadline s \<le> t2 div 1000 + b)
                          \<and> (status s' = Open
                                \<longleftrightarrow> \<not> (ca \<or> cap s \<le> newTotal
                                         \<or> deadline s \<le> t2 div 1000 + b))))
         \<and> outcome (settleUptoSession_default st c sid why t1 t2) = Returns
         \<and> (\<exists>s'. finalStore (settleUptoSession_default st c sid why t1 t2) sid = Some s'
                \<and> settledTotal s' = newTotal
                \<and> status s' =
                    (if cap s \<le> newTotal \<or> deadline s \<le> t2 div 1000 + 60
                     then Closed else Open))"
proof (intro conjI allI impI)
  assume "outcome (settleUptoSession st c sid why ca buf t1 t2) = Returns"
  from settle_pending_state [OF assms(1-3) this]
  obtain s' where s': "finalStore (settleUptoSession st c sid why ca buf t1 t2) sid = Some s'"
    "settledTotal s' = newTotal" "cap s' = cap s" "deadline s' = deadline s"
    "lastSettlement s' = Some \<lparr> atMs = t1, reason = why, receipt = rc \<rparr>"
    "status s' = (if ca \<or> cap s \<le> newTotal
                              \<or> (case BigInt_number buf of None \<Rightarrow> False
                                  | Some b \<Rightarrow> deadline s \<le> t2 div 1000 + b)
                           then Closed else Open)"
    unfolding rc_def newTotal_def by blast
  from s'(6) have "status s' \<noteq> Settling"
    by (simp split: if_splits)
  with s' show "\<exists>s'. finalStore (settleUptoSession st c sid why ca buf t1 t2) sid = Some s'
                      \<and> status s' \<noteq> Settling
                      \<and> status s' =
                          (if ca \<or> cap s \<le> newTotal
                              \<or> (case BigInt_number buf of None \<Rightarrow> False
                                  | Some b \<Rightarrow> deadline s \<le> t2 div 1000 + b)
                           then Closed else Open)
                      \<and> settledTotal s' = newTotal
                      \<and> cap s' = cap s \<and> deadline s' = deadline s
                      \<and> lastSettlement s' = Some \<lparr> atMs = t1, reason = why, receipt = rc \<rparr>"
    by blast
next
  fix b assume b: "buf = Integer b"
  then show r: "outcome (settleUptoSession st c sid why ca buf t1 t2) = Returns"
    by (simp add: settle_returns)
  from settle_pending_state [OF assms(1-3) r]
  obtain s' where s': "finalStore (settleUptoSession st c sid why ca buf t1 t2) sid = Some s'"
    "settledTotal s' = newTotal" "cap s' = cap s" "deadline s' = deadline s"
    "status s' = (if ca \<or> cap s \<le> newTotal
                              \<or> (case BigInt_number buf of None \<Rightarrow> False
                                  | Some b \<Rightarrow> deadline s \<le> t2 div 1000 + b)
                           then Closed else Open)"
    unfolding rc_def newTotal_def by blast
  from s'(5) b have "(status s' = Closed
                                \<longleftrightarrow> ca \<or> cap s \<le> newTotal \<or> deadline s \<le> t2 div 1000 + b)
                          \<and> (status s' = Open
                                \<longleftrightarrow> \<not> (ca \<or> cap s \<le> newTotal
                                         \<or> deadline s \<le> t2 div 1000 + b))"
    by (simp split: if_splits)
  with s'(1-4) show "\<exists>s'. finalStore (settleUptoSession st c sid why ca buf t1 t2) sid = Some s'
                          \<and> settledTotal s' = newTotal
                          \<and> cap s' = cap s \<and> deadline s' = deadline s
                          \<and> (status s' = Closed
                                \<longleftrightarrow> ca \<or> cap s \<le> newTotal \<or> deadline s \<le> t2 div 1000 + b)
                          \<and> (status s' = Open
                                \<longleftrightarrow> \<not> (ca \<or> cap s \<le> newTotal
                                         \<or> deadline s \<le> t2 div 1000 + b))"
    by blast
next
  show r: "outcome (settleUptoSession_default st c sid why t1 t2) = Returns"
    by (simp add: settleUptoSession_default_def settle_returns)
  then have "outcome (settleUptoSession st c sid why False (Integer 60) t1 t2) = Returns"
    by (simp add: settleUptoSession_default_def)
  from settle_pending_state [OF assms(1-3) this]
  obtain s' where s': "finalStore (settleUptoSession st c sid why False (Integer 60) t1 t2) sid
        = Some s'"
    "settledTotal s' = newTotal"
    "status s' = (if False \<or> cap s \<le> newTotal
                              \<or> (case BigInt_number (Integer 60) of None \<Rightarrow> False
                                  | Some b \<Rightarrow> deadline s \<le> t2 div 1000 + b)
                           then Closed else Open)"
    unfolding rc_def newTotal_def by blast
  then show "\<exists>s'. finalStore (settleUptoSession_default st c sid why t1 t2) sid = Some s'
                \<and> settledTotal s' = newTotal
                \<and> status s' =
                    (if cap s \<le> newTotal \<or> deadline s \<le> t2 div 1000 + 60
                     then Closed else Open)"
    by (simp add: settleUptoSession_default_def)
qed

theorem settle_final_status_rule_witness:
  "demoStore ''s1'' = Some demoSession \<and> status demoSession = Open
   \<and> 0 < pendingSpent demoSession
   \<and> outcome (settleUptoSession_default demoStore clientOk ''s1'' ''periodic''
                1700000000123 1700000000456) = Returns
   \<and> (\<exists>s'. finalStore (settleUptoSession_default demoStore clientOk ''s1'' ''periodic''
                1700000000123 1700000000456) ''s1'' = Some s'
            \<and> settledTotal s' = 300000 \<and> status s' = Open)
   \<and> (\<exists>s'. finalStore (settleUptoSession demoStore clientOk ''s1'' ''deadline'' False
                (Integer 400000000) 1700000000123 1700000000456) ''s1'' = Some s'
            \<and> settledTotal s' = 300000 \<and> status s' = Closed)"
proof -
  have v: "cap demoSession = 1000000" "deadline demoSession = 2000000000"
    "settledTotal demoSession = 0" "pendingSpent demoSession = 300000"
    by (simp_all add: demoSession_def)
  note T1 = settle_final_status_rule [of demoStore "''s1''" demoSession clientOk "''periodic''"
      False "Integer 60" 1700000000123 1700000000456,
      OF demoStore_s1 demoSession_open demoSession_pending, unfolded demo_receipt]
  note T2 = settle_final_status_rule [of demoStore "''s1''" demoSession clientOk "''deadline''"
      False "Integer 400000000" 1700000000123 1700000000456,
      OF demoStore_s1 demoSession_open demoSession_pending, unfolded demo_receipt]
  from T1 have a: "outcome (settleUptoSession_default demoStore clientOk ''s1'' ''periodic''
                1700000000123 1700000000456) = Returns
   \<and> (\<exists>s'. finalStore (settleUptoSession_default demoStore clientOk ''s1'' ''periodic''
                1700000000123 1700000000456) ''s1'' = Some s'
            \<and> settledTotal s' = 300000 \<and> status s' = Open)"
    by (simp add: v)
  from T2 [THEN conjunct2, THEN conjunct1, THEN spec, of 400000000]
  have b: "\<exists>s'. finalStore (settleUptoSession demoStore clientOk ''s1'' ''deadline'' False
                (Integer 400000000) 1700000000123 1700000000456) ''s1'' = Some s'
            \<and> settledTotal s' = 300000 \<and> status s' = Closed"
    by (auto simp: v)
  from a b demoStore_s1 demoSession_open demoSession_pending show ?thesis
    by (intro conjI) (elim conjE, assumption)+
qed

section \<open>Facts about the upto EVM scheme\<close>

lemmas parse_defs = toBigInt_def StringToBigInt_def trimString_def isStrWhiteSpaceChar_def
  signedInteger_def parseDigits_def digitValue_def

lemma verifySignature_cases:
  assumes "verifySignature rt sg h rq p sig ownerA spenderA nm ver cid capV nonceV dl = (Inr v, h')"
  shows "v = invalid ''invalid_permit_signature'' p
         \<or> v = \<lparr> isValid = True, invalidReason = None, payer = p \<rparr>"
  using assms
  by (auto simp: verifySignature_def Let_def split: option.splits if_splits)

lemma verifyAmounts_cases:
  assumes "verifyAmounts rt sg nowMs h rq p auth sig ownerA spenderA nm ver = (Inr v, h')"
  shows "(v = invalid ''cap_too_low'' p
            \<and> toBigInt (auth_value auth) < toBigInt (Some (amount rq)))
         \<or> (v = invalid ''cap_below_required_max'' p
            \<and> 0 < maxRequiredOf rq \<and> toBigInt (auth_value auth) < maxRequiredOf rq)
         \<or> (v = invalid ''authorization_expired'' p
            \<and> toBigInt (auth_validBefore auth) < nowMs div 1000 + 6)
         \<or> ((v = invalid ''invalid_chain_id'' p
              \<or> v = invalid ''invalid_permit_signature'' p
              \<or> v = \<lparr> isValid = True, invalidReason = None, payer = p \<rparr>)
            \<and> toBigInt (Some (amount rq)) \<le> toBigInt (auth_value auth)
            \<and> nowMs div 1000 + 6 \<le> toBigInt (auth_validBefore auth))"
  using assms
  by (auto simp: verifyAmounts_def maxRequiredOf_def Let_def
           split: if_splits dest: verifySignature_cases)

lemma verifyAddresses_cases:
  assumes "verifyAddresses rt sg nowMs h pl rq p auth sig ownerStr spenderStr = (Inr v, h')"
  shows "v = invalid ''network_mismatch'' p
         \<or> v = invalid ''missing_eip712_domain'' p
         \<or> v = invalid ''recipient_mismatch'' p
         \<or> (\<exists>ownerA spenderA nm ver.
               verifyAmounts rt sg nowMs h rq p auth sig ownerA spenderA nm ver = (Inr v, h'))"
  using assms
  by (auto simp: verifyAddresses_def Let_def split: option.splits if_splits)

lemma verify_cases:
  assumes "verify rt sg nowMs h pl rq = (Inr v, h')"
  shows "v = invalid ''unsupported_scheme'' (payerOf pl)
         \<or> v = invalid ''invalid_upto_evm_payload'' (payerOf pl)
         \<or> (\<exists>auth sig ownerStr spenderStr.
               authorization (payload pl) = Some auth
               \<and> verifyAddresses rt sg nowMs h pl rq (payerOf pl) auth sig ownerStr spenderStr
                   = (Inr v, h'))"
  using assms
  by (auto simp: verify_def Let_def split: option.splits if_splits)


lemma verify_result:
  assumes "verify rt sg nowMs h pl rq = (Inr v, h')"
  shows "invalidReason v \<noteq> Some ''total_exceeds_cap''"
    and "isValid v \<Longrightarrow> requiredAmountOf rq \<le> capOf pl"
    and "invalidReason v = Some ''cap_below_required_max'' \<Longrightarrow> 0 < maxRequiredOf rq"
    and "invalidReason v = Some ''authorization_expired'' \<Longrightarrow> deadlineOf pl < nowMs div 1000 + 6"
    and "invalidReason v = Some ''cap_too_low'' \<Longrightarrow> capOf pl < requiredAmountOf rq"
proof -
  from verify_cases [OF assms]
  consider (early) "v = invalid ''unsupported_scheme'' (payerOf pl)
         \<or> v = invalid ''invalid_upto_evm_payload'' (payerOf pl)"
    | (addr) auth sig ownerStr spenderStr where "authorization (payload pl) = Some auth"
        "verifyAddresses rt sg nowMs h pl rq (payerOf pl) auth sig ownerStr spenderStr = (Inr v, h')"
    by blast
  then have "invalidReason v \<noteq> Some ''total_exceeds_cap''
      \<and> (isValid v \<longrightarrow> requiredAmountOf rq \<le> capOf pl)
      \<and> (invalidReason v = Some ''cap_below_required_max'' \<longrightarrow> 0 < maxRequiredOf rq)
      \<and> (invalidReason v = Some ''authorization_expired'' \<longrightarrow> deadlineOf pl < nowMs div 1000 + 6)
      \<and> (invalidReason v = Some ''cap_too_low'' \<longrightarrow> capOf pl < requiredAmountOf rq)"
  proof cases
    case early
    then show ?thesis by (auto simp: invalid_def)
  next
    case addr
    from verifyAddresses_cases [OF addr(2)]
    consider (a) "v = invalid ''network_mismatch'' (payerOf pl)
         \<or> v = invalid ''missing_eip712_domain'' (payerOf pl)
         \<or> v = invalid ''recipient_mismatch'' (payerOf pl)"
      | (b) ownerA spenderA nm ver where
          "verifyAmounts rt sg nowMs h rq (payerOf pl) auth sig ownerA spenderA nm ver = (Inr v, h')"
      by blast
    then show ?thesis
    proof cases
      case a
      then show ?thesis by (auto simp: invalid_def)
    next
      case b
      from verifyAmounts_cases [OF b] addr(1) show ?thesis
        by (auto simp: invalid_def capOf_def deadlineOf_def requiredAmountOf_def)
    qed
  qed
  then show "invalidReason v \<noteq> Some ''total_exceeds_cap''"
    and "isValid v \<Longrightarrow> requiredAmountOf rq \<le> capOf pl"
    and "invalidReason v = Some ''cap_below_required_max'' \<Longrightarrow> 0 < maxRequiredOf rq"
    and "invalidReason v = Some ''authorization_expired'' \<Longrightarrow> deadlineOf pl < nowMs div 1000 + 6"
    and "invalidReason v = Some ''cap_too_low'' \<Longrightarrow> capOf pl < requiredAmountOf rq"
    by blast+
qed

lemma falsy_Some: "\<not> falsy x \<Longrightarrow> \<exists>s. x = Some s \<and> s \<noteq> []"
  by (cases x) auto

lemma verify_reaches_amounts:
  assumes "reachesCapCheck rt pl rq"
  shows "\<exists>auth sig ownerA spenderA nm ver.
           authorization (payload pl) = Some auth
           \<and> verify rt sg nowMs h pl rq
               = verifyAmounts rt sg nowMs h rq (payerOf pl) auth sig ownerA spenderA nm ver"
proof -
  from assms obtain auth where auth: "authorization (payload pl) = Some auth"
    by (auto simp: reachesCapCheck_def split: option.splits)
  with assms have f: "\<not> falsy (signature (payload pl))" "\<not> falsy (auth_from auth)"
      "\<not> falsy (nullish (auth_to auth) (Some (payTo rq)))" "\<not> falsy (auth_nonce auth)"
      "\<not> falsy (auth_validBefore auth)" "\<not> falsy (auth_value auth)"
      "\<not> falsy (extraField name (extra rq))" "\<not> falsy (extraField version (extra rq))"
    and s: "scheme (accepted pl) = ''upto''" "scheme rq = ''upto''"
      "network (accepted pl) = network rq"
    and g: "getAddressOpt rt (auth_from auth) \<noteq> None"
      "getAddressOpt rt (nullish (auth_to auth) (Some (payTo rq))) \<noteq> None"
      "getAddress rt (payTo rq) \<noteq> None"
      "getAddressOpt rt (nullish (auth_to auth) (Some (payTo rq))) = getAddress rt (payTo rq)"
    by (simp_all add: reachesCapCheck_def)
  from falsy_Some [OF f(2)] obtain ownerStr where o: "auth_from auth = Some ownerStr" by blast
  from falsy_Some [OF f(3)] obtain spenderStr
    where sp: "nullish (auth_to auth) (Some (payTo rq)) = Some spenderStr" by blast
  from g(1) o obtain ownerA where oa: "getAddress rt ownerStr = Some ownerA"
    by (auto simp: getAddressOpt_def)
  from g(2) sp obtain spenderA where sa: "getAddress rt spenderStr = Some spenderA"
    by (auto simp: getAddressOpt_def)
  from g(4) sp sa have pa: "getAddress rt (payTo rq) = Some spenderA"
    by (simp add: getAddressOpt_def)
  have "verify rt sg nowMs h pl rq
      = verifyAddresses rt sg nowMs h pl rq (payerOf pl) auth
          (case signature (payload pl) of None \<Rightarrow> [] | Some sg \<Rightarrow> sg) ownerStr spenderStr"
    using auth f s o sp by (simp add: verify_def Let_def)
  also have "\<dots> = verifyAmounts rt sg nowMs h rq (payerOf pl) auth
          (case signature (payload pl) of None \<Rightarrow> [] | Some sg \<Rightarrow> sg) ownerA spenderA
          (case extraField name (extra rq) of None \<Rightarrow> [] | Some nm \<Rightarrow> nm)
          (case extraField version (extra rq) of None \<Rightarrow> [] | Some ver \<Rightarrow> ver)"
    using f s oa sa pa by (simp add: verifyAddresses_def Let_def)
  finally show ?thesis using auth by blast
qed

lemma verifyAmounts_cap_too_low:
  assumes "toBigInt (auth_value auth) < toBigInt (Some (amount rq))"
  shows "verifyAmounts rt sg nowMs h rq p auth sig ownerA spenderA nm ver
           = (Inr (invalid ''cap_too_low'' p), h)"
  using assms by (simp add: verifyAmounts_def Let_def)

lemma verifyAmounts_expired:
  assumes "toBigInt (Some (amount rq)) \<le> toBigInt (auth_value auth)"
    and "maxRequiredOf rq \<le> 0 \<or> maxRequiredOf rq \<le> toBigInt (auth_value auth)"
    and "toBigInt (auth_validBefore auth) < nowMs div 1000 + 6"
  shows "verifyAmounts rt sg nowMs h rq p auth sig ownerA spenderA nm ver
           = (Inr (invalid ''authorization_expired'' p), h)"
  using assms by (auto simp: verifyAmounts_def maxRequiredOf_def Let_def)


lemmas demo_defs = demoRuntime_def demoPayload_def demoRequirements_def demoAuthorization_def
  payloadValidBefore_def requirementsBadMax_def payloadBadFrom_def requirementsOverCap_def
  payloadCapValue_def payloadNonceValue_def

lemmas reach_defs = reachesDeadlineCheck_def reachesCapCheck_def capOf_def deadlineOf_def
  requiredAmountOf_def maxRequiredOf_def extraField_def getAddressOpt_def payerOf_def

lemmas verify_defs = verify_def verifyAddresses_def verifyAmounts_def verifySignature_def
  invalid_def extraField_def chainIdOf_def payerOf_def

lemma verify_reaches_deadline:
  assumes "reachesDeadlineCheck rt pl rq"
  shows "(deadlineOf pl < nowMs div 1000 + 6
            \<longrightarrow> verify rt sg nowMs h pl rq
                  = (Inr (invalid ''authorization_expired'' (payerOf pl)), h))
         \<and> (\<not> deadlineOf pl < nowMs div 1000 + 6
            \<longrightarrow> (\<forall>v h'. verify rt sg nowMs h pl rq = (Inr v, h')
                    \<longrightarrow> invalidReason v \<noteq> Some ''authorization_expired''))"
proof -
  from assms have r: "reachesCapCheck rt pl rq"
    and c: "requiredAmountOf rq \<le> capOf pl"
    and m: "maxRequiredOf rq \<le> 0 \<or> maxRequiredOf rq \<le> capOf pl"
    by (simp_all add: reachesDeadlineCheck_def)
  from verify_reaches_amounts [OF r, of sg nowMs h]
  obtain auth sig ownerA spenderA nm ver where a: "authorization (payload pl) = Some auth"
    and v: "verify rt sg nowMs h pl rq
               = verifyAmounts rt sg nowMs h rq (payerOf pl) auth sig ownerA spenderA nm ver"
    by blast
  from a c m have c': "toBigInt (Some (amount rq)) \<le> toBigInt (auth_value auth)"
    and m': "maxRequiredOf rq \<le> 0 \<or> maxRequiredOf rq \<le> toBigInt (auth_value auth)"
    and d: "deadlineOf pl = toBigInt (auth_validBefore auth)"
    by (simp_all add: capOf_def requiredAmountOf_def deadlineOf_def)
  show ?thesis
  proof (intro conjI impI allI)
    assume "deadlineOf pl < nowMs div 1000 + 6"
    with d have "toBigInt (auth_validBefore auth) < nowMs div 1000 + 6" by simp
    from verifyAmounts_expired [OF c' m' this] v
    show "verify rt sg nowMs h pl rq = (Inr (invalid ''authorization_expired'' (payerOf pl)), h)"
      by simp
  next
    fix v h'
    assume n: "\<not> deadlineOf pl < nowMs div 1000 + 6"
      and "verify rt sg nowMs h pl rq = (Inr v, h')"
    from verify_result(4) [OF this(2)] n
    show "invalidReason v \<noteq> Some ''authorization_expired''" by blast
  qed
qed

lemma reaches_demo:
  "vb \<noteq> [] \<Longrightarrow> reachesDeadlineCheck demoRuntime (payloadValidBefore vb) demoRequirements"
  by (simp add: reach_defs demo_defs parse_defs)

lemma deadline_5: "deadlineOf (payloadValidBefore ''1700000005'') = 1700000000456 div 1000 + 5"
  by (simp add: deadlineOf_def demo_defs parse_defs)

lemma deadline_7: "deadlineOf (payloadValidBefore ''1700000007'') = 1700000000456 div 1000 + 7"
  by (simp add: deadlineOf_def demo_defs parse_defs)

lemma verify_7:
  "fst (verify demoRuntime signerFresh 1700000000456 [] (payloadValidBefore ''1700000007'')
          demoRequirements)
     = Inr \<lparr> isValid = True, invalidReason = None,
              payer = Some ''0x00000000000000000000000000000000000000a0'' \<rparr>"
  by (simp add: verify_defs demo_defs parse_defs signerFresh_def Let_def)

lemma transferFromStep_tags:
  assumes "transferFromStep rt sg h token payerA payToStr totalS net = (resp, h')"
  shows "errorReason resp = Some ''transaction_failed''
         \<or> errorReason resp = Some ''invalid_transaction_state''
         \<or> errorReason resp = None"
  using assms
  by (auto simp: transferFromStep_def failure_def Let_def split: option.splits if_splits)

lemma tryPermit_tags:
  assumes "tryPermit sg h token call payerA spenderA totalS net = (Some resp, h')"
  shows "errorReason resp = Some ''permit_failed''
         \<or> errorReason resp = Some ''insufficient_allowance''"
  using assms
  by (auto simp: tryPermit_def allowanceFallback_def failure_def Let_def
           split: option.splits if_splits)

lemma settleOnChain_tags:
  assumes "settleOnChain rt sg hv pl rq auth payerA spenderA token capV totalS = (Inr resp, h')"
  shows "errorReason resp \<noteq> Some ''total_exceeds_cap''"
proof -
  have "errorReason resp = Some ''unsupported_signature_type''
      \<or> errorReason resp = Some ''permit_failed''
      \<or> errorReason resp = Some ''insufficient_allowance''
      \<or> errorReason resp = Some ''transaction_failed''
      \<or> errorReason resp = Some ''invalid_transaction_state''
      \<or> errorReason resp = None"
    using assms
    by (auto simp: settleOnChain_def failure_def Let_def
             split: option.splits if_splits prod.splits
             dest: tryPermit_tags transferFromStep_tags)
  then show ?thesis by auto
qed

lemma settleVerified_tags:
  assumes "settleVerified rt sg hv pl rq = (Inr resp, h')"
    and "requiredAmountOf rq \<le> capOf pl"
  shows "errorReason resp \<noteq> Some ''total_exceeds_cap''"
  using assms
  by (auto simp: settleVerified_def Let_def capOf_def requiredAmountOf_def
           split: option.splits if_splits dest: settleOnChain_tags)

lemma settle_tags:
  assumes "settle rt sg nowMs h pl rq = (Inr resp, h')"
  shows "errorReason resp \<noteq> Some ''total_exceeds_cap''"
proof (cases "verify rt sg nowMs h pl rq")
  case (Pair res hv)
  show ?thesis
  proof (cases res)
    case (Inl e)
    with Pair assms show ?thesis by (simp add: settle_def)
  next
    case (Inr v)
    with Pair have v: "verify rt sg nowMs h pl rq = (Inr v, hv)" by simp
    show ?thesis
    proof (cases "isValid v")
      case True
      with v assms have "settleVerified rt sg hv pl rq = (Inr resp, h')"
        by (simp add: settle_def)
      from settleVerified_tags [OF this verify_result(2) [OF v True]]
      show ?thesis .
    next
      case False
      with v assms have "errorReason resp
          = Some (case invalidReason v of None \<Rightarrow> ''invalid_upto_evm_payload'' | Some tag \<Rightarrow> tag)"
        by (auto simp: settle_def)
      with verify_result(1) [OF v] show ?thesis
        by (auto split: option.splits)
    qed
  qed
qed


lemmas settle_defs = settle_def settleVerified_def settleOnChain_def tryPermit_def
  allowanceFallback_def transferFromStep_def failure_def getAddressOpt_def

lemma settle_reaches_permit:
  assumes "verify rt sg nowMs h pl rq = (Inr vr, hv)" and "isValid vr"
    and "authorization (payload pl) = Some auth"
    and "getAddressOpt rt (auth_from auth) = Some payerA"
    and "getAddressOpt rt (nullish (auth_to auth) (Some (payTo rq))) = Some spenderA"
    and "getAddress rt (asset rq) = Some token"
    and "signature (payload pl) = Some sigStr" and "parseSignature rt sigStr = Some ps"
    and "\<not> (falsyBigint (sig_v ps) \<and> sig_yParity ps = None)"
  shows "settle rt sg nowMs h pl rq
           = (case tryPermit sg hv token
                     (permit payerA spenderA (capOf pl) (deadlineOf pl)
                        (nullish (sig_v ps) (sig_yParity ps)) (sig_r ps) (sig_s ps))
                     payerA spenderA (requiredAmountOf rq) (network (accepted pl)) of
                (Some early, h1) \<Rightarrow> (Inr early, h1)
              | (None, h1) \<Rightarrow>
                  apfst Inr (transferFromStep rt sg h1 token payerA (payTo rq)
                               (requiredAmountOf rq) (network (accepted pl))))"
proof -
  from verify_result(2) [OF assms(1,2)] assms(3)
  have c: "\<not> toBigInt (auth_value auth) < toBigInt (Some (amount rq))"
    by (simp add: capOf_def requiredAmountOf_def)
  have "settle rt sg nowMs h pl rq = settleVerified rt sg hv pl rq"
    using assms(1,2) by (simp add: settle_def)
  also have "\<dots> = settleOnChain rt sg hv pl rq auth payerA spenderA token
                     (toBigInt (auth_value auth)) (toBigInt (Some (amount rq)))"
    using assms(3-6) c by (simp add: settleVerified_def Let_def)
  also have "\<dots> = (case tryPermit sg hv token
                     (permit payerA spenderA (capOf pl) (deadlineOf pl)
                        (nullish (sig_v ps) (sig_yParity ps)) (sig_r ps) (sig_s ps))
                     payerA spenderA (requiredAmountOf rq) (network (accepted pl)) of
                (Some early, h1) \<Rightarrow> (Inr early, h1)
              | (None, h1) \<Rightarrow>
                  apfst Inr (transferFromStep rt sg h1 token payerA (payTo rq)
                               (requiredAmountOf rq) (network (accepted pl))))"
    using assms(3,7-9)
    by (auto simp: settleOnChain_def Let_def capOf_def deadlineOf_def requiredAmountOf_def
          apfst_def map_prod_def split: prod.splits option.splits)
  finally show ?thesis .
qed

lemma tryPermit_ok:
  assumes "writeContract sg h token call = Some ptx"
    and "waitForTransactionReceipt sg (h @ [WriteContract token call]) ptx = Some st"
  shows "tryPermit sg h token call payerA spenderA totalS net
           = (None, h @ [WriteContract token call, WaitForTransactionReceipt ptx])"
  using assms by (simp add: tryPermit_def Let_def)

lemma tryPermit_threw:
  assumes "(writeContract sg h token call = None \<and> hp = h @ [WriteContract token call])
           \<or> (\<exists>ptx. writeContract sg h token call = Some ptx
                 \<and> waitForTransactionReceipt sg (h @ [WriteContract token call]) ptx = None
                 \<and> hp = h @ [WriteContract token call, WaitForTransactionReceipt ptx])"
  shows "tryPermit sg h token call payerA spenderA totalS net
           = allowanceFallback sg hp token payerA spenderA totalS net"
  using assms by (auto simp: tryPermit_def Let_def)

lemma tryPermit_first_call:
  "\<exists>rest. snd (tryPermit sg h token call payerA spenderA totalS net)
            = h @ WriteContract token call # rest"
  by (auto simp: tryPermit_def allowanceFallback_def Let_def split: option.splits)

lemma transferFromStep_extends:
  "\<exists>rest. snd (transferFromStep rt sg h token payerA payToStr totalS net) = h @ rest"
  by (auto simp: transferFromStep_def Let_def split: option.splits)


lemma settle_first_call:
  assumes "settle rt sg nowMs h pl rq
           = (case tryPermit sg hv token call payerA spenderA totalS net of
                (Some early, h1) \<Rightarrow> (Inr early, h1)
              | (None, h1) \<Rightarrow>
                  apfst Inr (transferFromStep rt sg h1 token payerA payToStr totalS net))"
  shows "\<exists>rest. snd (settle rt sg nowMs h pl rq) = hv @ WriteContract token call # rest"
proof -
  obtain early h1 where tp: "tryPermit sg hv token call payerA spenderA totalS net = (early, h1)"
    by (cases "tryPermit sg hv token call payerA spenderA totalS net")
  from tryPermit_first_call [of sg hv token call payerA spenderA totalS net] tp
  obtain rest where h1: "h1 = hv @ WriteContract token call # rest" by auto
  show ?thesis
  proof (cases early)
    case (Some resp)
    with assms tp h1 show ?thesis by simp
  next
    case None
    from transferFromStep_extends [of rt sg h1 token payerA payToStr totalS net]
    obtain rest' where "snd (transferFromStep rt sg h1 token payerA payToStr totalS net) = h1 @ rest'"
      by blast
    with None assms tp h1 show ?thesis by (simp add: apfst_def map_prod_def split: prod.splits)
  qed
qed

lemma demo_verify_replay:
  "verify demoRuntime signerReplay 1700000000456 [] demoPayload demoRequirements
     = (Inr \<lparr> isValid = True, invalidReason = None,
              payer = Some ''0x00000000000000000000000000000000000000a0'' \<rparr>,
        [VerifyTypedData demoTypedData])"
  by (simp add: verify_defs demo_defs parse_defs signerReplay_def demoTypedData_def Let_def)

lemma settle_over_cap:
  "settle demoRuntime signerFresh 1700000000456 [] demoPayload requirementsOverCap
     = (Inr \<lparr> success = False, errorReason = Some ''cap_too_low'', transaction = [],
              settleNetwork = ''eip155:8453'',
              settlePayer = Some ''0x00000000000000000000000000000000000000a0'' \<rparr>, [])"
  by (simp add: settle_defs verify_defs demo_defs parse_defs signerFresh_def Let_def)

lemma verifySignature_log:
  assumes "verifySignature rt sg h rq p sig ownerA spenderA nm ver cid capV nonceV dl = (res, h')"
  shows "h' = h
         \<or> (\<exists>req. h' = h @ [VerifyTypedData req]
               \<and> msg_nonce (td_message req) = nonceV
               \<and> msg_value (td_message req) = capV
               \<and> msg_deadline (td_message req) = dl)"
  using assms
  by (auto simp: verifySignature_def Let_def split: option.splits if_splits)

lemma verifyAmounts_log:
  assumes "verifyAmounts rt sg nowMs h rq p auth sig ownerA spenderA nm ver = (res, h')"
  shows "h' = h
         \<or> (\<exists>req. h' = h @ [VerifyTypedData req]
               \<and> msg_nonce (td_message req) = toBigInt (auth_nonce auth)
               \<and> msg_value (td_message req) = toBigInt (auth_value auth)
               \<and> msg_deadline (td_message req) = toBigInt (auth_validBefore auth))"
  using assms
  by (auto simp: verifyAmounts_def Let_def split: if_splits dest: verifySignature_log)

lemma verifyAddresses_log:
  assumes "verifyAddresses rt sg nowMs h pl rq p auth sig ownerStr spenderStr = (res, h')"
  shows "h' = h
         \<or> (\<exists>req. h' = h @ [VerifyTypedData req]
               \<and> msg_nonce (td_message req) = toBigInt (auth_nonce auth)
               \<and> msg_value (td_message req) = toBigInt (auth_value auth)
               \<and> msg_deadline (td_message req) = toBigInt (auth_validBefore auth))"
  using assms
  by (auto simp: verifyAddresses_def Let_def split: option.splits if_splits
           dest: verifyAmounts_log)

lemma verify_log:
  assumes "verify rt sg nowMs h pl rq = (res, h')"
  shows "h' = h
         \<or> (\<exists>req auth. authorization (payload pl) = Some auth
               \<and> h' = h @ [VerifyTypedData req]
               \<and> msg_nonce (td_message req) = toBigInt (auth_nonce auth)
               \<and> msg_value (td_message req) = capOf pl
               \<and> msg_deadline (td_message req) = deadlineOf pl)"
  using assms
  by (auto simp: verify_def Let_def capOf_def deadlineOf_def split: option.splits if_splits
           dest: verifyAddresses_log)

lemma verifySignature_before_signer:
  assumes "verifySignature rt sg h rq p sig ownerA spenderA nm ver cid capV nonceV dl = (res, h)"
  shows "verifySignature rt sg h rq p sig ownerA spenderA nm ver cid capV nonceV' dl = (res, h)"
  using assms
  by (auto simp: verifySignature_def Let_def split: option.splits if_splits)

lemma verifyAmounts_other_nonce:
  assumes "verifyAmounts rt sg nowMs h rq p auth sig ownerA spenderA nm ver = (res, h)"
  shows "verifyAmounts rt sg nowMs h rq p (auth \<lparr> auth_nonce := x \<rparr>) sig ownerA spenderA nm ver
           = (res, h)"
  using assms
  by (auto simp: verifyAmounts_def Let_def split: if_splits
           intro: verifySignature_before_signer)

lemma verifyAddresses_other_nonce:
  assumes "verifyAddresses rt sg nowMs h pl rq p auth sig ownerStr spenderStr = (res, h)"
    and "accepted pl' = accepted pl"
  shows "verifyAddresses rt sg nowMs h pl' rq p (auth \<lparr> auth_nonce := x \<rparr>) sig ownerStr spenderStr
           = (res, h)"
  using assms
  by (auto simp: verifyAddresses_def Let_def split: option.splits if_splits
           intro: verifyAmounts_other_nonce)

lemma verify_other_nonce:
  assumes "authorization (payload pl) = Some auth"
    and "\<not> falsy (auth_nonce auth)" and "n' \<noteq> []"
    and "verify rt sg nowMs h pl rq = (res, h)"
  shows "verify rt sg nowMs h
           (pl \<lparr> payload := (payload pl)
                   \<lparr> authorization := Some (auth \<lparr> auth_nonce := Some n' \<rparr>) \<rparr> \<rparr>) rq
           = (res, h)"
  using assms
  by (auto simp: verify_def Let_def payerOf_def split: option.splits if_splits
           intro: verifyAddresses_other_nonce)

text \<open>
  Claim C6. Once re-verification has passed and the signature has parsed, \<open>settle\<close> first
  submits \<open>permit(owner, spender, cap, deadline, v, r, s)\<close> to the ERC-20 and awaits its
  receipt. When neither throws it goes on to \<open>transferFrom\<close>. When either throws it reads
  \<open>allowance(owner, spender)\<close>: a read that throws gives \<open>permit_failed\<close>, an allowance
  below \<open>totalSpent\<close> gives \<open>insufficient_allowance\<close>, a sufficient one goes on to
  \<open>transferFrom(owner, payTo, totalSpent)\<close>. There, a throw of the submission or of the
  receipt gives \<open>transaction_failed\<close> with the empty transaction, a receipt whose status is
  not \<open>success\<close> gives \<open>invalid_transaction_state\<close> with the transaction hash, and
  success gives \<open>{success: true, transaction, network, payer}\<close>.
\<close>

theorem settle_permit_then_fallback:
  fixes totalSpent :: int and net :: string and permitCall :: ContractCall
    and afterPermitCall :: "SignerCall list"
    and transfer :: "SignerCall list \<Rightarrow> (SchemeError + SettleResponse) \<times> SignerCall list"
    and result :: "(SchemeError + SettleResponse) \<times> SignerCall list"
  assumes "verify rt sg nowMs h pl rq = (Inr vr, hv)" and "isValid vr"
    and "authorization (payload pl) = Some auth"
    and "getAddressOpt rt (auth_from auth) = Some payerA"
    and "getAddressOpt rt (nullish (auth_to auth) (Some (payTo rq))) = Some spenderA"
    and "getAddress rt (asset rq) = Some token"
    and "signature (payload pl) = Some sigStr" and "parseSignature rt sigStr = Some ps"
    and "\<not> (falsyBigint (sig_v ps) \<and> sig_yParity ps = None)"
    and "getAddress rt (payTo rq) = Some payToA"
  defines "totalSpent \<equiv> requiredAmountOf rq"
    and "net \<equiv> network (accepted pl)"
    and "permitCall \<equiv> permit payerA spenderA (capOf pl) (deadlineOf pl)
                         (nullish (sig_v ps) (sig_yParity ps)) (sig_r ps) (sig_s ps)"
    and "afterPermitCall \<equiv> hv @ [WriteContract token permitCall]"
    and "transfer \<equiv> \<lambda>ht. apfst Inr (transferFromStep rt sg ht token payerA (payTo rq) totalSpent net)"
    and "result \<equiv> settle rt sg nowMs h pl rq"
  shows "(\<exists>rest. snd result = hv @ WriteContract token permitCall # rest)
    \<and> (\<forall>ptx st. writeContract sg hv token permitCall = Some ptx
                \<and> waitForTransactionReceipt sg afterPermitCall ptx = Some st
          \<longrightarrow> result = transfer (afterPermitCall @ [WaitForTransactionReceipt ptx]))
    \<and> (\<forall>hp. (writeContract sg hv token permitCall = None \<and> hp = afterPermitCall)
             \<or> (\<exists>ptx. writeContract sg hv token permitCall = Some ptx
                   \<and> waitForTransactionReceipt sg afterPermitCall ptx = None
                   \<and> hp = afterPermitCall @ [WaitForTransactionReceipt ptx])
          \<longrightarrow> (readContract sg hp token (allowance payerA spenderA) = None
                 \<longrightarrow> result = (Inr (failure ''permit_failed'' [] net (Some payerA)),
                               hp @ [ReadContract token (allowance payerA spenderA)]))
              \<and> (\<forall>granted. readContract sg hp token (allowance payerA spenderA) = Some granted
                              \<and> granted < totalSpent
                    \<longrightarrow> result = (Inr (failure ''insufficient_allowance'' [] net (Some payerA)),
                                  hp @ [ReadContract token (allowance payerA spenderA)]))
              \<and> (\<forall>granted. readContract sg hp token (allowance payerA spenderA) = Some granted
                              \<and> totalSpent \<le> granted
                    \<longrightarrow> result
                         = transfer (hp @ [ReadContract token (allowance payerA spenderA)])))
    \<and> (\<forall>ht. (writeContract sg ht token (transferFrom payerA payToA totalSpent) = None
               \<longrightarrow> transfer ht
                     = (Inr (failure ''transaction_failed'' [] net (Some payerA)),
                        ht @ [WriteContract token (transferFrom payerA payToA totalSpent)]))
            \<and> (\<forall>tx. writeContract sg ht token (transferFrom payerA payToA totalSpent) = Some tx
                  \<longrightarrow> (waitForTransactionReceipt sg
                          (ht @ [WriteContract token (transferFrom payerA payToA totalSpent)]) tx
                        = None
                       \<longrightarrow> transfer ht
                           = (Inr (failure ''transaction_failed'' [] net (Some payerA)),
                              ht @ [WriteContract token (transferFrom payerA payToA totalSpent),
                                    WaitForTransactionReceipt tx]))
                    \<and> (\<forall>st. waitForTransactionReceipt sg
                                (ht @ [WriteContract token (transferFrom payerA payToA totalSpent)])
                                tx = Some st
                          \<longrightarrow> transfer ht
                              = (Inr (if st \<noteq> ''success''
                                      then failure ''invalid_transaction_state'' tx net (Some payerA)
                                      else \<lparr> success = True, errorReason = None,
                                             transaction = tx, settleNetwork = net,
                                             settlePayer = Some payerA \<rparr>),
                                 ht @ [WriteContract token (transferFrom payerA payToA totalSpent),
                                       WaitForTransactionReceipt tx]))))"
proof -
  note r = settle_reaches_permit [OF assms(1-9)]
  have r': "result = (case tryPermit sg hv token permitCall payerA spenderA totalSpent net of
                (Some early, h1) \<Rightarrow> (Inr early, h1)
              | (None, h1) \<Rightarrow> transfer h1)"
    unfolding result_def permitCall_def totalSpent_def net_def transfer_def by (rule r)
  have 1: "\<exists>rest. snd result = hv @ WriteContract token permitCall # rest"
    unfolding result_def permitCall_def by (rule settle_first_call [OF r])
  have 2: "result = transfer (afterPermitCall @ [WaitForTransactionReceipt ptx])"
    if "writeContract sg hv token permitCall = Some ptx
          \<and> waitForTransactionReceipt sg afterPermitCall ptx = Some st" for ptx st
    using that r' tryPermit_ok [of sg hv token permitCall ptx st payerA spenderA totalSpent net]
    by (simp add: afterPermitCall_def)
  have 3: "(readContract sg hp token (allowance payerA spenderA) = None
                 \<longrightarrow> result = (Inr (failure ''permit_failed'' [] net (Some payerA)),
                               hp @ [ReadContract token (allowance payerA spenderA)]))
              \<and> (\<forall>granted. readContract sg hp token (allowance payerA spenderA) = Some granted
                              \<and> granted < totalSpent
                    \<longrightarrow> result = (Inr (failure ''insufficient_allowance'' [] net (Some payerA)),
                                  hp @ [ReadContract token (allowance payerA spenderA)]))
              \<and> (\<forall>granted. readContract sg hp token (allowance payerA spenderA) = Some granted
                              \<and> totalSpent \<le> granted
                    \<longrightarrow> result
                         = transfer (hp @ [ReadContract token (allowance payerA spenderA)]))"
    if "(writeContract sg hv token permitCall = None \<and> hp = afterPermitCall)
             \<or> (\<exists>ptx. writeContract sg hv token permitCall = Some ptx
                   \<and> waitForTransactionReceipt sg afterPermitCall ptx = None
                   \<and> hp = afterPermitCall @ [WaitForTransactionReceipt ptx])" for hp
  proof -
    from that have "tryPermit sg hv token permitCall payerA spenderA totalSpent net
           = allowanceFallback sg hp token payerA spenderA totalSpent net"
      by (intro tryPermit_threw) (auto simp: afterPermitCall_def)
    with r' show ?thesis
      by (auto simp: allowanceFallback_def Let_def)
  qed
  have 4: "(writeContract sg ht token (transferFrom payerA payToA totalSpent) = None
               \<longrightarrow> transfer ht
                     = (Inr (failure ''transaction_failed'' [] net (Some payerA)),
                        ht @ [WriteContract token (transferFrom payerA payToA totalSpent)]))
            \<and> (\<forall>tx. writeContract sg ht token (transferFrom payerA payToA totalSpent) = Some tx
                  \<longrightarrow> (waitForTransactionReceipt sg
                          (ht @ [WriteContract token (transferFrom payerA payToA totalSpent)]) tx
                        = None
                       \<longrightarrow> transfer ht
                           = (Inr (failure ''transaction_failed'' [] net (Some payerA)),
                              ht @ [WriteContract token (transferFrom payerA payToA totalSpent),
                                    WaitForTransactionReceipt tx]))
                    \<and> (\<forall>st. waitForTransactionReceipt sg
                                (ht @ [WriteContract token (transferFrom payerA payToA totalSpent)])
                                tx = Some st
                          \<longrightarrow> transfer ht
                              = (Inr (if st \<noteq> ''success''
                                      then failure ''invalid_transaction_state'' tx net (Some payerA)
                                      else \<lparr> success = True, errorReason = None,
                                             transaction = tx, settleNetwork = net,
                                             settlePayer = Some payerA \<rparr>),
                                 ht @ [WriteContract token (transferFrom payerA payToA totalSpent),
                                       WaitForTransactionReceipt tx])))" for ht
    using assms(10) by (simp add: transfer_def transferFromStep_def Let_def)
  from 1 2 3 4 show ?thesis by blast
qed

theorem settle_permit_then_fallback_witness:
  "verify demoRuntime signerReplay 1700000000456 [] demoPayload demoRequirements
     = (Inr \<lparr> isValid = True, invalidReason = None,
              payer = Some ''0x00000000000000000000000000000000000000a0'' \<rparr>,
        [VerifyTypedData demoTypedData])
   \<and> writeContract signerReplay [VerifyTypedData demoTypedData]
        ''0x833589fCD6eDb6E08f4c7C32D4f71b54bdA02913''
        (permit ''0x00000000000000000000000000000000000000a0''
           ''0x00000000000000000000000000000000000000b0'' 1000000 2000000000 (Some 27)
           ''0x01'' ''0x02'') = None
   \<and> settle demoRuntime signerReplay 1700000000456 [] demoPayload demoRequirements
       = (Inr \<lparr> success = True, errorReason = None, transaction = ''0xb2'',
                settleNetwork = ''eip155:8453'',
                settlePayer = Some ''0x00000000000000000000000000000000000000a0'' \<rparr>,
          [VerifyTypedData demoTypedData,
           WriteContract ''0x833589fCD6eDb6E08f4c7C32D4f71b54bdA02913''
             (permit ''0x00000000000000000000000000000000000000a0''
                ''0x00000000000000000000000000000000000000b0'' 1000000 2000000000 (Some 27)
                ''0x01'' ''0x02''),
           ReadContract ''0x833589fCD6eDb6E08f4c7C32D4f71b54bdA02913''
             (allowance ''0x00000000000000000000000000000000000000a0''
                ''0x00000000000000000000000000000000000000b0''),
           WriteContract ''0x833589fCD6eDb6E08f4c7C32D4f71b54bdA02913''
             (transferFrom ''0x00000000000000000000000000000000000000a0''
                ''0x00000000000000000000000000000000000000b0'' 250000),
           WaitForTransactionReceipt ''0xb2''])"
proof -
  define tok where "tok = ''0x833589fCD6eDb6E08f4c7C32D4f71b54bdA02913''"
  define a0 where "a0 = ''0x00000000000000000000000000000000000000a0''"
  define b0 where "b0 = ''0x00000000000000000000000000000000000000b0''"
  define ps where "ps = \<lparr> sig_r = ''0x01'', sig_s = ''0x02'', sig_v = Some 27,
                          sig_yParity = Some (0::int) \<rparr>"
  define pc where "pc = permit a0 b0 1000000 2000000000 (Some 27) ''0x01'' ''0x02''"
  define hv where "hv = [VerifyTypedData demoTypedData]"
  have vals: "capOf demoPayload = 1000000" "deadlineOf demoPayload = 2000000000"
      "requiredAmountOf demoRequirements = 250000"
      "network (accepted demoPayload) = ''eip155:8453''"
      "payTo demoRequirements = b0"
      "nullish (sig_v ps) (sig_yParity ps) = Some 27" "sig_r ps = ''0x01''" "sig_s ps = ''0x02''"
    by (simp_all add: capOf_def deadlineOf_def requiredAmountOf_def demo_defs parse_defs b0_def
          ps_def)
  have v: "verify demoRuntime signerReplay 1700000000456 [] demoPayload demoRequirements
             = (Inr \<lparr> isValid = True, invalidReason = None, payer = Some a0 \<rparr>, hv)"
    unfolding a0_def hv_def by (rule demo_verify_replay)
  have hyps: "isValid \<lparr> isValid = True, invalidReason = None, payer = Some a0 \<rparr>"
      "authorization (payload demoPayload) = Some demoAuthorization"
      "getAddressOpt demoRuntime (auth_from demoAuthorization) = Some a0"
      "getAddressOpt demoRuntime (nullish (auth_to demoAuthorization) (Some (payTo demoRequirements)))
         = Some b0"
      "getAddress demoRuntime (asset demoRequirements) = Some tok"
      "signature (payload demoPayload) = Some ''0x1b''"
      "parseSignature demoRuntime ''0x1b'' = Some ps"
      "\<not> (falsyBigint (sig_v ps) \<and> sig_yParity ps = None)"
      "getAddress demoRuntime (payTo demoRequirements) = Some b0"
    by (simp_all add: demo_defs getAddressOpt_def a0_def b0_def tok_def ps_def)
  note T = settle_permit_then_fallback [OF v hyps, unfolded vals, folded pc_def]
  have w: "writeContract signerReplay hv tok pc = None"
    by (simp add: signerReplay_def pc_def)
  have r: "readContract signerReplay (hv @ [WriteContract tok pc]) tok (allowance a0 b0)
             = Some 700000"
    by (simp add: signerReplay_def)
  have s1: "settle demoRuntime signerReplay 1700000000456 [] demoPayload demoRequirements
      = apfst Inr (transferFromStep demoRuntime signerReplay
          ((hv @ [WriteContract tok pc]) @ [ReadContract tok (allowance a0 b0)])
          tok a0 b0 250000 ''eip155:8453'')"
    using T [THEN conjunct2, THEN conjunct2, THEN conjunct1, THEN spec,
             of "hv @ [WriteContract tok pc]"] w r
    by simp
  have w2: "writeContract signerReplay
              ((hv @ [WriteContract tok pc]) @ [ReadContract tok (allowance a0 b0)])
              tok (transferFrom a0 b0 250000) = Some ''0xb2''"
    by (simp add: signerReplay_def)
  have r2: "waitForTransactionReceipt signerReplay
              (((hv @ [WriteContract tok pc]) @ [ReadContract tok (allowance a0 b0)])
                 @ [WriteContract tok (transferFrom a0 b0 250000)]) ''0xb2'' = Some ''success''"
    by (simp add: signerReplay_def)
  have s2: "apfst Inr (transferFromStep demoRuntime signerReplay
          ((hv @ [WriteContract tok pc]) @ [ReadContract tok (allowance a0 b0)])
          tok a0 b0 250000 ''eip155:8453'')
      = ((Inr :: SettleResponse \<Rightarrow> SchemeError + SettleResponse) \<lparr> success = True, errorReason = None, transaction = ''0xb2'',
                settleNetwork = ''eip155:8453'', settlePayer = Some a0 \<rparr>,
         ((hv @ [WriteContract tok pc]) @ [ReadContract tok (allowance a0 b0)])
           @ [WriteContract tok (transferFrom a0 b0 250000), WaitForTransactionReceipt ''0xb2''])"
    using T [THEN conjunct2, THEN conjunct2, THEN conjunct2, THEN spec,
             of "(hv @ [WriteContract tok pc]) @ [ReadContract tok (allowance a0 b0)]"] w2 r2
    by simp
  from s1 s2 v w show ?thesis
    by (simp add: hv_def tok_def a0_def b0_def pc_def)
qed

text \<open>
  Claim C7, at the inputs where the code departs from it. \<open>verify\<close> calls \<open>getAddress\<close> on
  \<open>authorization.from\<close> outside any \<open>try\<close>: for a payload that passes the presence checks
  and whose \<open>from\<close> is not an address, \<open>verify\<close> throws \<open>InvalidAddressError\<close> instead of
  returning a tagged response, and so does \<open>settle\<close>, which calls \<open>verify\<close> first.
\<close>

theorem verify_throws_on_invalid_address:
  assumes "scheme (accepted pl) = ''upto''" and "scheme rq = ''upto''"
    and "authorization (payload pl) = Some auth"
    and "\<not> falsy (signature (payload pl))"
    and "auth_from auth = Some ownerStr" and "ownerStr \<noteq> []"
    and "\<not> falsy (nullish (auth_to auth) (Some (payTo rq)))"
    and "\<not> falsy (auth_nonce auth)"
    and "\<not> falsy (auth_validBefore auth)"
    and "\<not> falsy (auth_value auth)"
    and "getAddress rt ownerStr = None"
  shows "verify rt sg nowMs h pl rq = (Inl InvalidAddressError, h)
         \<and> settle rt sg nowMs h pl rq = (Inl InvalidAddressError, h)"
proof -
  from falsy_Some [OF assms(7)] obtain spenderStr
    where sp: "nullish (auth_to auth) (Some (payTo rq)) = Some spenderStr" by blast
  have "verify rt sg nowMs h pl rq
      = verifyAddresses rt sg nowMs h pl rq (payerOf pl) auth
          (case signature (payload pl) of None \<Rightarrow> [] | Some sg \<Rightarrow> sg) ownerStr spenderStr"
    using assms sp by (simp add: verify_def Let_def)
  also have "\<dots> = (Inl InvalidAddressError, h)"
    using assms(11) by (simp add: verifyAddresses_def)
  finally have v: "verify rt sg nowMs h pl rq = (Inl InvalidAddressError, h)" .
  then have "settle rt sg nowMs h pl rq = (Inl InvalidAddressError, h)"
    by (simp add: settle_def)
  with v show ?thesis by simp
qed

theorem verify_throws_on_invalid_address_witness:
  "getAddress demoRuntime ''0x1234'' = None
   \<and> verify demoRuntime signerFresh 1700000000456 [] payloadBadFrom demoRequirements
       = (Inl InvalidAddressError, [])
   \<and> settle demoRuntime signerFresh 1700000000456 [] payloadBadFrom demoRequirements
       = (Inl InvalidAddressError, [])"
proof -
  have g: "getAddress demoRuntime ''0x1234'' = None"
    by (simp add: demoRuntime_def)
  have "verify demoRuntime signerFresh 1700000000456 [] payloadBadFrom demoRequirements
       = (Inl InvalidAddressError, [])
   \<and> settle demoRuntime signerFresh 1700000000456 [] payloadBadFrom demoRequirements
       = (Inl InvalidAddressError, [])"
    by (rule verify_throws_on_invalid_address
          [where auth = "demoAuthorization \<lparr> auth_from := Some ''0x1234'' \<rparr>"
             and ownerStr = "''0x1234''"])
       (simp_all add: demo_defs)
  with g show ?thesis by simp
qed

text \<open>
  Claim C8 as stated fails: a \<open>maxAmountRequired\<close> that does not parse is read as zero,
  and that zero switches the comparison off instead of failing it; \<open>verify\<close> accepts.
\<close>

theorem unparseable_maximum_passes_counterexample:
  "StringToBigInt ''abc'' = None
   \<and> toBigInt (Some ''abc'') = 0
   \<and> extraField maxAmountRequired (extra requirementsBadMax) = Some ''abc''
   \<and> fst (verify demoRuntime signerFresh 1700000000456 [] demoPayload requirementsBadMax)
       = Inr \<lparr> isValid = True, invalidReason = None,
                payer = Some ''0x00000000000000000000000000000000000000a0'' \<rparr>"
  by (simp add: verify_defs demo_defs parse_defs signerFresh_def Let_def)

text \<open>
  Claim C8, amended. \<open>toBigInt\<close> is total and yields 0 for a missing, an empty and an
  unparseable string; \<open>verify\<close> parses cap, amount, nonce, \<open>validBefore\<close> and the required
  maximum with it. In \<open>verify\<close>, once the earlier checks pass, a zero \<open>validBefore\<close>
  fails the deadline comparison (\<open>authorization_expired\<close>, for a clock at or after the
  epoch), and a zero cap fails the cap comparison (\<open>cap_too_low\<close>) exactly when the parsed
  amount is positive. A zero \<open>maxAmountRequired\<close> never gives \<open>cap_below_required_max\<close>,
  and a zero amount never gives \<open>cap_too_low\<close> for a cap that is not negative. The parsed
  nonce goes into the Permit message handed to the signer, next to the parsed cap and
  deadline, and into no comparison: every outcome \<open>verify\<close> reaches without calling the
  signer is the same for any other nonce that is present.
\<close>

theorem toBigInt_saturates_to_zero:
  "toBigInt None = 0 \<and> toBigInt (Some []) = 0
   \<and> (StringToBigInt s = None \<longrightarrow> toBigInt (Some s) = 0)
   \<and> (reachesDeadlineCheck rt pl rq \<and> deadlineOf pl = 0 \<and> 0 \<le> nowMs
        \<longrightarrow> verify rt sg nowMs h pl rq
              = (Inr (invalid ''authorization_expired'' (payerOf pl)), h))
   \<and> (reachesCapCheck rt pl rq \<and> capOf pl = 0
        \<longrightarrow> ((verify rt sg nowMs h pl rq = (Inr (invalid ''cap_too_low'' (payerOf pl)), h))
               \<longleftrightarrow> 0 < requiredAmountOf rq))
   \<and> (maxRequiredOf rq = 0
        \<longrightarrow> (\<forall>v h'. verify rt sg nowMs h pl rq = (Inr v, h')
                \<longrightarrow> invalidReason v \<noteq> Some ''cap_below_required_max''))
   \<and> (requiredAmountOf rq = 0 \<and> 0 \<le> capOf pl
        \<longrightarrow> (\<forall>v h'. verify rt sg nowMs h pl rq = (Inr v, h')
                \<longrightarrow> invalidReason v \<noteq> Some ''cap_too_low''))
   \<and> (\<forall>res h'. verify rt sg nowMs h pl rq = (res, h')
        \<longrightarrow> h' = h
            \<or> (\<exists>req auth. authorization (payload pl) = Some auth
                  \<and> h' = h @ [VerifyTypedData req]
                  \<and> msg_nonce (td_message req) = toBigInt (auth_nonce auth)
                  \<and> msg_value (td_message req) = capOf pl
                  \<and> msg_deadline (td_message req) = deadlineOf pl))
   \<and> (\<forall>auth (n' :: string) res.
          authorization (payload pl) = Some auth \<and> \<not> falsy (auth_nonce auth) \<and> n' \<noteq> []
          \<and> verify rt sg nowMs h pl rq = (res, h)
        \<longrightarrow> verify rt sg nowMs h
              (pl \<lparr> payload := (payload pl)
                      \<lparr> authorization := Some (auth \<lparr> auth_nonce := Some n' \<rparr>) \<rparr> \<rparr>) rq
            = (res, h))"
proof (intro conjI impI allI)
  show "toBigInt None = 0" "toBigInt (Some []) = 0"
    by (simp_all add: toBigInt_def)
next
  assume "StringToBigInt s = None"
  then show "toBigInt (Some s) = 0" by (simp add: toBigInt_def)
next
  assume a: "reachesDeadlineCheck rt pl rq \<and> deadlineOf pl = 0 \<and> 0 \<le> nowMs"
  then have "0 \<le> nowMs" by simp
  then have "0 \<le> nowMs div 1000" by (simp add: pos_imp_zdiv_nonneg_iff)
  with a have "deadlineOf pl < nowMs div 1000 + 6" by simp
  with verify_reaches_deadline [of rt pl rq nowMs sg h] a
  show "verify rt sg nowMs h pl rq = (Inr (invalid ''authorization_expired'' (payerOf pl)), h)"
    by blast
next
  assume a: "reachesCapCheck rt pl rq \<and> capOf pl = 0"
  show "(verify rt sg nowMs h pl rq = (Inr (invalid ''cap_too_low'' (payerOf pl)), h))
               \<longleftrightarrow> 0 < requiredAmountOf rq"
  proof
    assume "verify rt sg nowMs h pl rq = (Inr (invalid ''cap_too_low'' (payerOf pl)), h)"
    from verify_result(5) [OF this] a show "0 < requiredAmountOf rq"
      by (simp add: invalid_def)
  next
    assume p: "0 < requiredAmountOf rq"
    from verify_reaches_amounts [of rt pl rq sg nowMs h] a
    obtain auth sig ownerA spenderA nm ver where au: "authorization (payload pl) = Some auth"
      and v: "verify rt sg nowMs h pl rq
               = verifyAmounts rt sg nowMs h rq (payerOf pl) auth sig ownerA spenderA nm ver"
      by blast
    from a p au have "toBigInt (auth_value auth) < toBigInt (Some (amount rq))"
      by (simp add: capOf_def requiredAmountOf_def)
    from verifyAmounts_cap_too_low [OF this] v
    show "verify rt sg nowMs h pl rq = (Inr (invalid ''cap_too_low'' (payerOf pl)), h)"
      by simp
  qed
next
  fix v h'
  assume "maxRequiredOf rq = 0" and "verify rt sg nowMs h pl rq = (Inr v, h')"
  with verify_result(3) [of rt sg nowMs h pl rq v h']
  show "invalidReason v \<noteq> Some ''cap_below_required_max''" by auto
next
  fix v h'
  assume "requiredAmountOf rq = 0 \<and> 0 \<le> capOf pl" and "verify rt sg nowMs h pl rq = (Inr v, h')"
  with verify_result(5) [of rt sg nowMs h pl rq v h']
  show "invalidReason v \<noteq> Some ''cap_too_low''" by auto
next
  fix res h'
  assume "verify rt sg nowMs h pl rq = (res, h')"
  then show "h' = h
            \<or> (\<exists>req auth. authorization (payload pl) = Some auth
                  \<and> h' = h @ [VerifyTypedData req]
                  \<and> msg_nonce (td_message req) = toBigInt (auth_nonce auth)
                  \<and> msg_value (td_message req) = capOf pl
                  \<and> msg_deadline (td_message req) = deadlineOf pl)"
    by (rule verify_log)
next
  fix auth and n' :: string and res
  assume a: "authorization (payload pl) = Some auth \<and> \<not> falsy (auth_nonce auth) \<and> n' \<noteq> []
          \<and> verify rt sg nowMs h pl rq = (res, h)"
  then have "authorization (payload pl) = Some auth" "\<not> falsy (auth_nonce auth)" "n' \<noteq> []"
    "verify rt sg nowMs h pl rq = (res, h)"
    by simp_all
  then show "verify rt sg nowMs h
              (pl \<lparr> payload := (payload pl)
                      \<lparr> authorization := Some (auth \<lparr> auth_nonce := Some n' \<rparr>) \<rparr> \<rparr>) rq
            = (res, h)"
    by (rule verify_other_nonce)
qed

theorem toBigInt_saturates_to_zero_witness:
  "StringToBigInt ''soon'' = None
   \<and> toBigInt (Some ''soon'') = 0
   \<and> reachesDeadlineCheck demoRuntime (payloadValidBefore ''soon'') demoRequirements
   \<and> deadlineOf (payloadValidBefore ''soon'') = 0
   \<and> verify demoRuntime signerFresh 1700000000456 [] (payloadValidBefore ''soon'') demoRequirements
       = (Inr \<lparr> isValid = False, invalidReason = Some ''authorization_expired'',
                payer = Some ''0x00000000000000000000000000000000000000a0'' \<rparr>, [])
   \<and> reachesCapCheck demoRuntime (payloadCapValue ''lots'') demoRequirements
   \<and> capOf (payloadCapValue ''lots'') = 0
   \<and> 0 < requiredAmountOf demoRequirements
   \<and> verify demoRuntime signerFresh 1700000000456 [] (payloadCapValue ''lots'') demoRequirements
       = (Inr \<lparr> isValid = False, invalidReason = Some ''cap_too_low'',
                payer = Some ''0x00000000000000000000000000000000000000a0'' \<rparr>, [])
   \<and> verify demoRuntime signerFresh 1700000000456 [] (payloadNonceValue ''7'') demoRequirements
       = (Inr \<lparr> isValid = True, invalidReason = None,
                payer = Some ''0x00000000000000000000000000000000000000a0'' \<rparr>,
          [VerifyTypedData
             (demoTypedData \<lparr> td_message := (td_message demoTypedData) \<lparr> msg_nonce := 7 \<rparr> \<rparr>)])
   \<and> toBigInt (Some ''n/a'') = 0
   \<and> verify demoRuntime signerFresh 1700000000456 [] (payloadNonceValue ''n/a'') demoRequirements
       = (Inr \<lparr> isValid = True, invalidReason = None,
                payer = Some ''0x00000000000000000000000000000000000000a0'' \<rparr>,
          [VerifyTypedData demoTypedData])"
proof -
  have p: "StringToBigInt ''soon'' = None"
    by (simp add: parse_defs)
  have r: "reachesDeadlineCheck demoRuntime (payloadValidBefore ''soon'') demoRequirements"
    by (rule reaches_demo) simp
  have d: "deadlineOf (payloadValidBefore ''soon'') = 0"
    by (simp add: deadlineOf_def demo_defs parse_defs)
  have i: "invalid ''authorization_expired'' (payerOf (payloadValidBefore ''soon''))
     = \<lparr> isValid = False, invalidReason = Some ''authorization_expired'',
         payer = Some ''0x00000000000000000000000000000000000000a0'' \<rparr>"
    by (simp add: invalid_def payerOf_def demo_defs)
  from toBigInt_saturates_to_zero [of "''soon''" demoRuntime "payloadValidBefore ''soon''"
         demoRequirements 1700000000456 signerFresh "[]"] p r d
  have one: "toBigInt (Some ''soon'') = 0
     \<and> verify demoRuntime signerFresh 1700000000456 [] (payloadValidBefore ''soon'') demoRequirements
       = (Inr (invalid ''authorization_expired'' (payerOf (payloadValidBefore ''soon''))), [])"
    by simp
  have rc: "reachesCapCheck demoRuntime (payloadCapValue ''lots'') demoRequirements"
    by (simp add: reach_defs demo_defs)
  have c: "capOf (payloadCapValue ''lots'') = 0"
    by (simp add: capOf_def demo_defs parse_defs)
  have q: "0 < requiredAmountOf demoRequirements"
    by (simp add: requiredAmountOf_def demo_defs parse_defs)
  have j: "invalid ''cap_too_low'' (payerOf (payloadCapValue ''lots''))
     = \<lparr> isValid = False, invalidReason = Some ''cap_too_low'',
         payer = Some ''0x00000000000000000000000000000000000000a0'' \<rparr>"
    by (simp add: invalid_def payerOf_def demo_defs)
  from toBigInt_saturates_to_zero [of "''soon''" demoRuntime "payloadCapValue ''lots''"
         demoRequirements 1700000000456 signerFresh "[]"] rc c q
  have two: "verify demoRuntime signerFresh 1700000000456 [] (payloadCapValue ''lots'') demoRequirements
       = (Inr (invalid ''cap_too_low'' (payerOf (payloadCapValue ''lots''))), [])"
    by simp
  have n7: "verify demoRuntime signerFresh 1700000000456 [] (payloadNonceValue ''7'')
              demoRequirements
       = (Inr \<lparr> isValid = True, invalidReason = None,
                payer = Some ''0x00000000000000000000000000000000000000a0'' \<rparr>,
          [VerifyTypedData
             (demoTypedData \<lparr> td_message := (td_message demoTypedData) \<lparr> msg_nonce := 7 \<rparr> \<rparr>)])"
    by (simp add: verify_defs demo_defs parse_defs signerFresh_def demoTypedData_def Let_def)
  have n0: "toBigInt (Some ''n/a'') = 0"
    by (simp add: parse_defs)
  have nn: "verify demoRuntime signerFresh 1700000000456 [] (payloadNonceValue ''n/a'')
              demoRequirements
       = (Inr \<lparr> isValid = True, invalidReason = None,
                payer = Some ''0x00000000000000000000000000000000000000a0'' \<rparr>,
          [VerifyTypedData demoTypedData])"
    by (simp add: verify_defs demo_defs parse_defs signerFresh_def demoTypedData_def Let_def)
  from one two p r d rc c q n7 n0 nn show ?thesis
    by (simp add: i j)
qed

text \<open>
  Claim C9. With all earlier checks passing, \<open>verify\<close> returns
  \<open>{isValid: false, invalidReason: "authorization_expired"}\<close> exactly when the parsed
  \<open>validBefore\<close> is less than \<open>now + 6\<close>, \<open>now\<close> being the clock in whole seconds: it does
  for \<open>validBefore = now + 5\<close>, and for \<open>validBefore = now + 7\<close> no response of \<open>verify\<close>
  carries that reason.
\<close>

theorem verify_deadline_boundary:
  assumes "reachesDeadlineCheck rt pl rq"
  shows "((verify rt sg nowMs h pl rq
             = (Inr (invalid ''authorization_expired'' (payerOf pl)), h))
            \<longleftrightarrow> deadlineOf pl < nowMs div 1000 + 6)
         \<and> (deadlineOf pl = nowMs div 1000 + 5
            \<longrightarrow> verify rt sg nowMs h pl rq
                  = (Inr (invalid ''authorization_expired'' (payerOf pl)), h))
         \<and> (deadlineOf pl = nowMs div 1000 + 7
            \<longrightarrow> (\<forall>v h'. verify rt sg nowMs h pl rq = (Inr v, h')
                    \<longrightarrow> invalidReason v \<noteq> Some ''authorization_expired''))"
proof -
  note d = verify_reaches_deadline [OF assms, of nowMs sg h]
  have "invalidReason (invalid ''authorization_expired'' (payerOf pl))
          = Some ''authorization_expired''"
    by (simp add: invalid_def)
  with d have "(verify rt sg nowMs h pl rq
             = (Inr (invalid ''authorization_expired'' (payerOf pl)), h))
            \<longleftrightarrow> deadlineOf pl < nowMs div 1000 + 6"
    by blast
  moreover from d have "deadlineOf pl = nowMs div 1000 + 5
            \<longrightarrow> verify rt sg nowMs h pl rq
                  = (Inr (invalid ''authorization_expired'' (payerOf pl)), h)"
    by simp
  moreover from d have "deadlineOf pl = nowMs div 1000 + 7
            \<longrightarrow> (\<forall>v h'. verify rt sg nowMs h pl rq = (Inr v, h')
                    \<longrightarrow> invalidReason v \<noteq> Some ''authorization_expired'')"
    by simp
  ultimately show ?thesis by blast
qed

theorem verify_deadline_boundary_witness:
  "reachesDeadlineCheck demoRuntime (payloadValidBefore ''1700000005'') demoRequirements
   \<and> deadlineOf (payloadValidBefore ''1700000005'') = 1700000000456 div 1000 + 5
   \<and> verify demoRuntime signerFresh 1700000000456 [] (payloadValidBefore ''1700000005'')
        demoRequirements
       = (Inr \<lparr> isValid = False, invalidReason = Some ''authorization_expired'',
                payer = Some ''0x00000000000000000000000000000000000000a0'' \<rparr>, [])
   \<and> deadlineOf (payloadValidBefore ''1700000007'') = 1700000000456 div 1000 + 7
   \<and> fst (verify demoRuntime signerFresh 1700000000456 [] (payloadValidBefore ''1700000007'')
          demoRequirements)
       = Inr \<lparr> isValid = True, invalidReason = None,
                payer = Some ''0x00000000000000000000000000000000000000a0'' \<rparr>"
proof -
  from verify_deadline_boundary [of demoRuntime "payloadValidBefore ''1700000005''"
         demoRequirements signerFresh 1700000000456 "[]"] reaches_demo deadline_5
  have "verify demoRuntime signerFresh 1700000000456 [] (payloadValidBefore ''1700000005'')
        demoRequirements
       = (Inr (invalid ''authorization_expired'' (payerOf (payloadValidBefore ''1700000005''))), [])"
    by blast
  moreover have "invalid ''authorization_expired'' (payerOf (payloadValidBefore ''1700000005''))
     = \<lparr> isValid = False, invalidReason = Some ''authorization_expired'',
                payer = Some ''0x00000000000000000000000000000000000000a0'' \<rparr>"
    by (simp add: invalid_def payerOf_def demo_defs)
  moreover have "reachesDeadlineCheck demoRuntime (payloadValidBefore ''1700000005'') demoRequirements"
    by (rule reaches_demo) simp
  ultimately show ?thesis
    using deadline_5 deadline_7 verify_7 by simp
qed

text \<open>
  Claim C10. \<open>settle\<close> never returns the reason \<open>total_exceeds_cap\<close>: a verification that
  is valid has established that the parsed amount does not exceed the parsed cap, and
  where the amount does exceed it \<open>verify\<close>, reaching the comparison, answers
  \<open>cap_too_low\<close>.
\<close>

theorem settle_never_total_exceeds_cap:
  "(\<forall>resp h'. settle rt sg nowMs h pl rq = (Inr resp, h')
       \<longrightarrow> errorReason resp \<noteq> Some ''total_exceeds_cap'')
   \<and> (\<forall>v h0. verify rt sg nowMs h pl rq = (Inr v, h0) \<and> isValid v
         \<longrightarrow> \<not> capOf pl < requiredAmountOf rq)
   \<and> (reachesCapCheck rt pl rq \<and> capOf pl < requiredAmountOf rq
         \<longrightarrow> verify rt sg nowMs h pl rq = (Inr (invalid ''cap_too_low'' (payerOf pl)), h))"
proof (intro conjI allI impI)
  fix resp h'
  assume "settle rt sg nowMs h pl rq = (Inr resp, h')"
  then show "errorReason resp \<noteq> Some ''total_exceeds_cap''" by (rule settle_tags)
next
  fix v h0
  assume "verify rt sg nowMs h pl rq = (Inr v, h0) \<and> isValid v"
  then have "requiredAmountOf rq \<le> capOf pl"
    using verify_result(2) by blast
  then show "\<not> capOf pl < requiredAmountOf rq" by simp
next
  assume a: "reachesCapCheck rt pl rq \<and> capOf pl < requiredAmountOf rq"
  from verify_reaches_amounts [of rt pl rq sg nowMs h] a
  obtain auth sig ownerA spenderA nm ver where au: "authorization (payload pl) = Some auth"
    and v: "verify rt sg nowMs h pl rq
               = verifyAmounts rt sg nowMs h rq (payerOf pl) auth sig ownerA spenderA nm ver"
    by blast
  from a au have "toBigInt (auth_value auth) < toBigInt (Some (amount rq))"
    by (simp add: capOf_def requiredAmountOf_def)
  from verifyAmounts_cap_too_low [OF this] v
  show "verify rt sg nowMs h pl rq = (Inr (invalid ''cap_too_low'' (payerOf pl)), h)"
    by simp
qed

theorem settle_never_total_exceeds_cap_witness:
  "reachesCapCheck demoRuntime demoPayload requirementsOverCap
   \<and> capOf demoPayload < requiredAmountOf requirementsOverCap
   \<and> verify demoRuntime signerFresh 1700000000456 [] demoPayload requirementsOverCap
       = (Inr \<lparr> isValid = False, invalidReason = Some ''cap_too_low'',
                payer = Some ''0x00000000000000000000000000000000000000a0'' \<rparr>, [])
   \<and> settle demoRuntime signerFresh 1700000000456 [] demoPayload requirementsOverCap
       = (Inr \<lparr> success = False, errorReason = Some ''cap_too_low'', transaction = [],
                settleNetwork = ''eip155:8453'',
                settlePayer = Some ''0x00000000000000000000000000000000000000a0'' \<rparr>, [])
   \<and> errorReason \<lparr> success = False, errorReason = Some ''cap_too_low'', transaction = [],
                settleNetwork = ''eip155:8453'',
                settlePayer = Some ''0x00000000000000000000000000000000000000a0'' \<rparr>
       \<noteq> Some ''total_exceeds_cap''"
proof -
  have r: "reachesCapCheck demoRuntime demoPayload requirementsOverCap"
    by (simp add: reach_defs demo_defs)
  have c: "capOf demoPayload < requiredAmountOf requirementsOverCap"
    by (simp add: capOf_def requiredAmountOf_def demo_defs parse_defs)
  have j: "invalid ''cap_too_low'' (payerOf demoPayload)
     = \<lparr> isValid = False, invalidReason = Some ''cap_too_low'',
         payer = Some ''0x00000000000000000000000000000000000000a0'' \<rparr>"
    by (simp add: invalid_def payerOf_def demo_defs)
  note T = settle_never_total_exceeds_cap [of demoRuntime signerFresh 1700000000456 "[]"
             demoPayload requirementsOverCap]
  from T settle_over_cap
  have e: "errorReason \<lparr> success = False, errorReason = Some ''cap_too_low'', transaction = [],
                settleNetwork = ''eip155:8453'',
                settlePayer = Some ''0x00000000000000000000000000000000000000a0'' \<rparr>
       \<noteq> Some ''total_exceeds_cap''"
    by blast
  from T r c
  have v: "verify demoRuntime signerFresh 1700000000456 [] demoPayload requirementsOverCap
       = (Inr (invalid ''cap_too_low'' (payerOf demoPayload)), [])"
    by blast
  from r c v [unfolded j] settle_over_cap e show ?thesis by (intro conjI)
qed

end
